theory Spec2Isabelle
  imports Complex_Main "HOL-Library.Sublist"
begin

section \<open>Robust SGD pipeline of \<^verbatim>\<open>src/active_robust.py\<close>\<close>

text \<open>
  The theory embeds \<^verbatim>\<open>ActiveSamplingRobust\<close> and \<^verbatim>\<open>run_main\<close>.
  The pipeline object is a record that every method takes and returns; a raised exception
  is the \<open>Inl\<close> branch of a sum. The collaborators that are imported from other modules
  (the model with its forward and backward pass, \<^verbatim>\<open>flatten_grads\<close>, the compressor
  \<^verbatim>\<open>C_J\<close>, the aggregation rule \<^verbatim>\<open>gar\<close>, the optimizer, the evaluation routine and the
  wall clock) are inputs: each batch and each epoch carries what they returned there, and
  a run reads them as a function of the seed that its generators were given.
  Python floats that hold clock readings and costs are reals; the loss keeps its
  non-finite values since the divergence test looks at them.
\<close>

subsection \<open>Data\<close>

datatype error =
  NotImplementedError | ValueError | IndexError | ZeroDivisionError | MemoryError | FileNotFoundError

datatype loss = Finite real | NaN | PosInf | NegInf

text \<open>The two counters of the aggregation rule that the training loop reads and resets.\<close>

record gar_state =
  agg_time :: real
  num_iter :: int

text \<open>The attributes of the compressor that the training loop reads after \<^verbatim>\<open>compress\<close>.\<close>

record compressor =
  normalized_residual :: real
  G_sparse :: "real list list"
  axis :: int

text \<open>
  The keys of \<^verbatim>\<open>self.metrics\<close> that this file touches, each prefixed with \<open>m_\<close>.
  A key that the code reads before writing (a counter, a series) is a plain field; a key
  that the code only assigns is an option, \<open>None\<close> while the key is absent.
\<close>

record metrics =
  m_num_iter :: int
  m_num_grad_steps :: int
  m_num_opt_steps :: int
  m_num_param :: "nat option"
  m_epoch_grad_cost :: "real list"
  m_epoch_agg_cost :: "real list"
  m_epoch_gm_iter :: "int list"
  m_epoch_compression_cost :: "real list"
  m_jacobian_residual :: "real list"
  m_total_grad_cost :: "real option"
  m_total_agg_cost :: "real option"
  m_total_gm_iter :: "int option"
  m_total_compression_cost :: "real option"
  m_total_cost :: "real option"
  m_avg_gm_cost :: "real option"

text \<open>
  The pipeline object. \<open>rng\<close> is the seed last given to \<^verbatim>\<open>np.random.seed\<close> and
  \<^verbatim>\<open>torch.manual_seed\<close>; \<open>model_updates\<close> stands for the model and its optimizer: the
  aggregated gradients that \<^verbatim>\<open>optimizer.step\<close> has applied, oldest first.
\<close>

record pipeline =
  seed :: int
  rng :: "int option"
  epoch :: int
  num_epochs :: int
  num_batches :: int
  G :: "real list list option"
  I_k :: "nat list option"
  C_J :: "compressor option"
  gar :: gar_state
  metrics :: metrics
  model_updates :: "real list list"

text \<open>The four accumulators that \<^verbatim>\<open>run_batch_train\<close> resets at the start of an epoch.\<close>

record epoch_locals =
  epoch_grad_cost :: real
  epoch_agg_cost :: real
  epoch_gm_iter :: int
  epoch_compression_cost :: real

text \<open>
  What the collaborators return while one batch is processed: the flattened gradient
  \<open>g_i\<close>, the clock readings of lines 51, 75, 83 and 85, the learning rate, and the two
  calls \<^verbatim>\<open>C_J.compress(G, lr)\<close> and \<^verbatim>\<open>gar.aggregate(G, ix, axis)\<close> as functions of the
  object they are called on and of their arguments; each returns its result and the object
  as the call leaves it.
\<close>

record batch_ext =
  g_i :: "real list"
  t_iter :: real
  t_iter_end :: real
  lr :: real
  t0 :: real
  t_compress_end :: real
  compress :: "compressor \<Rightarrow> real list list \<Rightarrow> real \<Rightarrow> nat list \<times> compressor"
  aggregate :: "gar_state \<Rightarrow> real list list \<Rightarrow> nat list option \<Rightarrow> int \<Rightarrow> real list \<times> gar_state"

text \<open>One epoch: the batches the loader yields and the loss that the evaluation returns.\<close>

record epoch_ext =
  train_loader :: "batch_ext list"
  train_loss :: loss

subsection \<open>numpy and Python primitives\<close>

text \<open>\<^verbatim>\<open>np.zeros((w, d))\<close>: a negative dimension raises \<^verbatim>\<open>ValueError\<close>.\<close>

definition np_zeros :: "int \<Rightarrow> nat \<Rightarrow> error + real list list" where
  "np_zeros w d = (if w < 0 then Inl ValueError else Inr (replicate (nat w) (replicate d 0)))"

text \<open>\<^verbatim>\<open>a % b\<close> on Python ints: the sign follows the divisor, zero raises.\<close>

definition py_mod :: "int \<Rightarrow> int \<Rightarrow> error + int" where
  "py_mod a b = (if b = 0 then Inl ZeroDivisionError else Inr (a mod b))"

text \<open>
  \<^verbatim>\<open>M[ix, :] = g\<close> on a two-dimensional array: a negative index counts from the end, an
  index out of range raises \<^verbatim>\<open>IndexError\<close>; a vector of the row's length is copied, a
  vector of length one is broadcast over the row, any other length raises
  \<^verbatim>\<open>ValueError\<close>.
\<close>

definition set_row :: "real list list \<Rightarrow> int \<Rightarrow> real list \<Rightarrow> error + real list list" where
  "set_row M ix g =
     (let n = int (length M); j = (if ix < 0 then ix + n else ix) in
      if j < 0 \<or> n \<le> j then Inl IndexError
      else let d = length (M ! nat j) in
        if length g = d then Inr (M[nat j := g])
        else if length g = 1 then Inr (M[nat j := replicate d (g ! 0)])
        else Inl ValueError)"

text \<open>The test of line 125, one disjunct per definition.\<close>

definition gt_1e3 :: "loss \<Rightarrow> bool" where
  "gt_1e3 x = (case x of Finite r \<Rightarrow> r > 1000 | NaN \<Rightarrow> False | PosInf \<Rightarrow> True | NegInf \<Rightarrow> False)"

definition isnan :: "loss \<Rightarrow> bool" where
  "isnan x = (case x of NaN \<Rightarrow> True | _ \<Rightarrow> False)"

definition isinf :: "loss \<Rightarrow> bool" where
  "isinf x = (case x of PosInf \<Rightarrow> True | NegInf \<Rightarrow> True | _ \<Rightarrow> False)"

definition diverging :: "loss \<Rightarrow> bool" where
  "diverging x = (gt_1e3 x \<or> isnan x \<or> isinf x)"

subsection \<open>The batch loop of \<^verbatim>\<open>run_batch_train\<close>\<close>

text \<open>Lines 50 and 62: both counters go up by one.\<close>

definition count_batch :: "pipeline \<Rightarrow> pipeline" where
  "count_batch s =
     s\<lparr>metrics := (metrics s)\<lparr>m_num_iter := m_num_iter (metrics s) + 1,
                               m_num_grad_steps := m_num_grad_steps (metrics s) + 1\<rparr>\<rparr>"

text \<open>Lines 66 to 70: the matrix is allocated when \<^verbatim>\<open>self.G is None\<close>.\<close>

definition ensure_G :: "real list \<Rightarrow> pipeline \<Rightarrow> error + (pipeline \<times> real list list)" where
  "ensure_G g s =
     (case G s of
        Some M \<Rightarrow> Inr (s, M)
      | None \<Rightarrow>
          (let d = length g;
               s1 = s\<lparr>metrics := (metrics s)\<lparr>m_num_param := Some d\<rparr>\<rparr> in
           case np_zeros (num_batches s1) d of
             Inl e \<Rightarrow> Inl e
           | Inr M \<Rightarrow> Inr (s1\<lparr>G := Some M\<rparr>, M)))"

text \<open>
  Lines 81 to 107, entered with the matrix \<open>M\<close> that \<^verbatim>\<open>self.G\<close> holds: compression when
  a compressor is configured, aggregation, the bookkeeping of the aggregation rule's
  counters and their reset, and the optimizer step.
\<close>

definition aggregation_phase ::
  "batch_ext \<Rightarrow> real list list \<Rightarrow> pipeline \<times> epoch_locals \<Rightarrow> pipeline \<times> epoch_locals" where
  "aggregation_phase b M sl =
     (let s = fst sl; l = snd sl;
          (s1, l1, res) =
            (case C_J s of
               Some c \<Rightarrow>
                 (let (ik, c') = compress b c M (lr b);
                      l' = l\<lparr>epoch_compression_cost :=
                               epoch_compression_cost l + (t_compress_end b - t0 b)\<rparr>;
                      s' = s\<lparr>I_k := Some ik, C_J := Some c',
                             metrics := (metrics s)\<lparr>m_jacobian_residual :=
                               m_jacobian_residual (metrics s) @ [normalized_residual c']\<rparr>\<rparr>
                  in (s', l', aggregate b (gar s') (G_sparse c') (I_k s') (axis c')))
             | None \<Rightarrow> (s, l, aggregate b (gar s) M (I_k s) 0));
          agg_g = fst res;
          gar1 = snd res;
          l2 = l1\<lparr>epoch_gm_iter := epoch_gm_iter l1 + num_iter gar1,
                  epoch_agg_cost := epoch_agg_cost l1 + agg_time gar1\<rparr>;
          gar2 = gar1\<lparr>agg_time := 0, num_iter := 0\<rparr>;
          s2 = s1\<lparr>gar := gar2, model_updates := model_updates s1 @ [agg_g]\<rparr>;
          s3 = s2\<lparr>metrics := (metrics s2)\<lparr>m_num_opt_steps := m_num_opt_steps (metrics s2) + 1\<rparr>\<rparr>
      in (s3, l2))"

text \<open>Lines 109 to 115, which stand inside the batch loop.\<close>

definition append_costs :: "pipeline \<times> epoch_locals \<Rightarrow> pipeline \<times> epoch_locals" where
  "append_costs sl =
     (let s = fst sl; l = snd sl; m = metrics s;
          m1 = m\<lparr>m_epoch_grad_cost := m_epoch_grad_cost m @ [epoch_grad_cost l]\<rparr>;
          m2 = m1\<lparr>m_epoch_agg_cost := m_epoch_agg_cost m1 @ [epoch_agg_cost l]\<rparr>;
          m3 = (if epoch_gm_iter l > 0
                then m2\<lparr>m_epoch_gm_iter := m_epoch_gm_iter m2 @ [epoch_gm_iter l]\<rparr> else m2);
          m4 = (if epoch_compression_cost l > 0
                then m3\<lparr>m_epoch_compression_cost :=
                          m_epoch_compression_cost m3 @ [epoch_compression_cost l]\<rparr> else m3)
      in (s\<lparr>metrics := m4\<rparr>, l))"

text \<open>
  Lines 75 to 115, after the row has been written: the gradient cost of the batch, the
  aggregation phase under the guard of line 80, and the appends.
\<close>

definition after_write ::
  "int \<Rightarrow> int \<Rightarrow> batch_ext \<Rightarrow> real list list \<Rightarrow> pipeline \<times> epoch_locals \<Rightarrow>
     pipeline \<times> epoch_locals" where
  "after_write batch_ix agg_ix b M sl =
     (let s = fst sl; l = snd sl;
          l1 = l\<lparr>epoch_grad_cost := epoch_grad_cost l + (t_iter_end b - t_iter b)\<rparr>
      in append_costs
           (if agg_ix = 0 \<and> batch_ix \<noteq> 0 then aggregation_phase b M (s, l1) else (s, l1)))"

text \<open>The body of the loop over the batches (lines 50 to 115) at index \<open>batch_ix\<close>.\<close>

definition batch_step ::
  "int \<Rightarrow> batch_ext \<Rightarrow> pipeline \<times> epoch_locals \<Rightarrow> error + (pipeline \<times> epoch_locals)" where
  "batch_step batch_ix b sl =
     (case ensure_G (g_i b) (count_batch (fst sl)) of
        Inl e \<Rightarrow> Inl e
      | Inr (s1, M) \<Rightarrow>
      (case py_mod batch_ix (num_batches s1) of
        Inl e \<Rightarrow> Inl e
      | Inr ix \<Rightarrow>
      (case py_mod (batch_ix + 1) (num_batches s1) of
        Inl e \<Rightarrow> Inl e
      | Inr agg_ix \<Rightarrow>
      (case set_row M ix (g_i b) of
        Inl e \<Rightarrow> Inl e
      | Inr M' \<Rightarrow> Inr (after_write batch_ix agg_ix b M' (s1\<lparr>G := Some M'\<rparr>, snd sl))))))"

text \<open>\<^verbatim>\<open>for batch_ix, ... in enumerate(self.train_loader)\<close>, from index \<open>i\<close> on.\<close>

fun run_batches ::
  "int \<Rightarrow> batch_ext list \<Rightarrow> pipeline \<times> epoch_locals \<Rightarrow> error + (pipeline \<times> epoch_locals)" where
  "run_batches i [] sl = Inr sl"
| "run_batches i (b # bs) sl =
     (case batch_step i b sl of Inl e \<Rightarrow> Inl e | Inr sl' \<Rightarrow> run_batches (i + 1) bs sl')"

subsection \<open>The epoch loop\<close>

text \<open>Lines 37 to 40.\<close>

definition fresh_locals :: epoch_locals where
  "fresh_locals = \<lparr>epoch_grad_cost = 0, epoch_agg_cost = 0, epoch_gm_iter = 0,
                    epoch_compression_cost = 0\<rparr>"

text \<open>Lines 132 to 141: the totals are recomputed from the series.\<close>

definition update_totals :: "metrics \<Rightarrow> metrics" where
  "update_totals m =
     (let tg = sum_list (m_epoch_grad_cost m);
          ta = sum_list (m_epoch_agg_cost m);
          ti = sum_list (m_epoch_gm_iter m);
          tc = sum_list (m_epoch_compression_cost m);
          m1 = m\<lparr>m_total_grad_cost := Some tg, m_total_agg_cost := Some ta,
                 m_total_gm_iter := Some ti, m_total_compression_cost := Some tc,
                 m_total_cost := Some (tg + ta + tc)\<rparr>
      in if ti \<noteq> 0 then m1\<lparr>m_avg_gm_cost := Some (ta / real_of_int ti)\<rparr> else m1)"

text \<open>
  Lines 117 to 141 with the loss \<open>x\<close> that \<^verbatim>\<open>evaluate_classifier\<close> returned: the divergence
  test, the increment of the epoch counter and the totals. The scheduler step of line 130
  changes nothing that this record holds.
\<close>

definition epoch_end :: "loss \<Rightarrow> pipeline \<Rightarrow> pipeline" where
  "epoch_end x s =
     (let s1 = (if diverging x then s\<lparr>epoch := num_epochs s\<rparr> else s);
          s2 = s1\<lparr>epoch := epoch s1 + 1\<rparr>
      in s2\<lparr>metrics := update_totals (metrics s2)\<rparr>)"

text \<open>One pass through the body of the \<^verbatim>\<open>while\<close> loop (lines 35 to 141).\<close>

definition run_epoch :: "epoch_ext \<Rightarrow> pipeline \<Rightarrow> error + pipeline" where
  "run_epoch e s =
     (case run_batches 0 (train_loader e) (s, fresh_locals) of
        Inl err \<Rightarrow> Inl err
      | Inr sl \<Rightarrow> Inr (epoch_end (train_loss e) (fst sl)))"

subsection \<open>What the batch loop leaves alone\<close>

lemma count_batch_frame:
  "epoch (count_batch s) = epoch s" "num_epochs (count_batch s) = num_epochs s"
  "num_batches (count_batch s) = num_batches s" "G (count_batch s) = G s"
  "gar (count_batch s) = gar s" "C_J (count_batch s) = C_J s" "I_k (count_batch s) = I_k s"
  "model_updates (count_batch s) = model_updates s"
  "seed (count_batch s) = seed s" "rng (count_batch s) = rng s"
  by (simp_all add: count_batch_def)

lemma ensure_G_frame:
  assumes "ensure_G g s = Inr (s1, M)"
  shows "epoch s1 = epoch s" "num_epochs s1 = num_epochs s" "num_batches s1 = num_batches s"
    "gar s1 = gar s" "C_J s1 = C_J s" "I_k s1 = I_k s" "model_updates s1 = model_updates s"
    "seed s1 = seed s" "rng s1 = rng s" "G s1 = Some M"
  using assms by (auto simp: ensure_G_def Let_def split: option.splits sum.splits)

lemma aggregation_phase_frame:
  "epoch (fst (aggregation_phase b M sl)) = epoch (fst sl)"
  "num_epochs (fst (aggregation_phase b M sl)) = num_epochs (fst sl)"
  "num_batches (fst (aggregation_phase b M sl)) = num_batches (fst sl)"
  "G (fst (aggregation_phase b M sl)) = G (fst sl)"
  "seed (fst (aggregation_phase b M sl)) = seed (fst sl)"
  "rng (fst (aggregation_phase b M sl)) = rng (fst sl)"
  by (simp_all add: aggregation_phase_def Let_def split: option.splits prod.splits)

lemma append_costs_frame:
  "epoch (fst (append_costs sl)) = epoch (fst sl)"
  "num_epochs (fst (append_costs sl)) = num_epochs (fst sl)"
  "num_batches (fst (append_costs sl)) = num_batches (fst sl)"
  "G (fst (append_costs sl)) = G (fst sl)"
  "gar (fst (append_costs sl)) = gar (fst sl)"
  "C_J (fst (append_costs sl)) = C_J (fst sl)"
  "I_k (fst (append_costs sl)) = I_k (fst sl)"
  "model_updates (fst (append_costs sl)) = model_updates (fst sl)"
  "seed (fst (append_costs sl)) = seed (fst sl)"
  "rng (fst (append_costs sl)) = rng (fst sl)"
  "snd (append_costs sl) = snd sl"
  by (simp_all add: append_costs_def Let_def)

lemma after_write_frame:
  "epoch (fst (after_write i a b M sl)) = epoch (fst sl)"
  "num_epochs (fst (after_write i a b M sl)) = num_epochs (fst sl)"
  "num_batches (fst (after_write i a b M sl)) = num_batches (fst sl)"
  "G (fst (after_write i a b M sl)) = G (fst sl)"
  "seed (fst (after_write i a b M sl)) = seed (fst sl)"
  "rng (fst (after_write i a b M sl)) = rng (fst sl)"
  by (simp_all add: after_write_def Let_def append_costs_frame aggregation_phase_frame)

lemma batch_step_Inr:
  assumes "batch_step i b sl = Inr sl'"
  obtains s1 M ix agg_ix M' where
    "ensure_G (g_i b) (count_batch (fst sl)) = Inr (s1, M)"
    "py_mod i (num_batches s1) = Inr ix"
    "py_mod (i + 1) (num_batches s1) = Inr agg_ix"
    "set_row M ix (g_i b) = Inr M'"
    "sl' = after_write i agg_ix b M' (s1\<lparr>G := Some M'\<rparr>, snd sl)"
  using assms unfolding batch_step_def
  by (auto split: sum.splits prod.splits)

lemma batch_step_frame:
  assumes "batch_step i b sl = Inr sl'"
  shows "epoch (fst sl') = epoch (fst sl)" "num_epochs (fst sl') = num_epochs (fst sl)"
    "num_batches (fst sl') = num_batches (fst sl)"
    "seed (fst sl') = seed (fst sl)" "rng (fst sl') = rng (fst sl)"
proof -
  from assms obtain s1 M ix agg_ix M' where
    e: "ensure_G (g_i b) (count_batch (fst sl)) = Inr (s1, M)" and
    "py_mod i (num_batches s1) = Inr ix"
    "py_mod (i + 1) (num_batches s1) = Inr agg_ix"
    "set_row M ix (g_i b) = Inr M'" and
    r: "sl' = after_write i agg_ix b M' (s1\<lparr>G := Some M'\<rparr>, snd sl)"
    by (rule batch_step_Inr)
  note f = ensure_G_frame[OF e] count_batch_frame after_write_frame
  show "epoch (fst sl') = epoch (fst sl)" "num_epochs (fst sl') = num_epochs (fst sl)"
    "num_batches (fst sl') = num_batches (fst sl)"
    "seed (fst sl') = seed (fst sl)" "rng (fst sl') = rng (fst sl)"
    by (simp_all add: r f)
qed

lemma run_batches_frame:
  "run_batches i bs sl = Inr sl' \<Longrightarrow>
     epoch (fst sl') = epoch (fst sl) \<and> num_epochs (fst sl') = num_epochs (fst sl) \<and>
     num_batches (fst sl') = num_batches (fst sl) \<and>
     seed (fst sl') = seed (fst sl) \<and> rng (fst sl') = rng (fst sl)"
proof (induction bs arbitrary: i sl)
  case Nil
  then show ?case by simp
next
  case (Cons b bs)
  from Cons.prems obtain sl1 where
    st: "batch_step i b sl = Inr sl1" and rest: "run_batches (i + 1) bs sl1 = Inr sl'"
    by (auto split: sum.splits)
  from Cons.IH[OF rest] batch_step_frame[OF st] show ?case by simp
qed

lemma epoch_end_frame:
  "num_epochs (epoch_end x s) = num_epochs s"
  "num_batches (epoch_end x s) = num_batches s"
  "epoch (epoch_end x s) = (if diverging x then num_epochs s + 1 else epoch s + 1)"
  "seed (epoch_end x s) = seed s" "rng (epoch_end x s) = rng s"
  "G (epoch_end x s) = G s" "gar (epoch_end x s) = gar s"
  "model_updates (epoch_end x s) = model_updates s"
  by (simp_all add: epoch_end_def Let_def)

lemma run_epoch_frame:
  assumes "run_epoch e s = Inr s'"
  shows "num_epochs s' = num_epochs s" "num_batches s' = num_batches s"
    "epoch s' = (if diverging (train_loss e) then num_epochs s + 1 else epoch s + 1)"
    "seed s' = seed s" "rng s' = rng s"
proof -
  from assms obtain sl where
    rb: "run_batches 0 (train_loader e) (s, fresh_locals) = Inr sl" and
    s': "s' = epoch_end (train_loss e) (fst sl)"
    by (auto simp: run_epoch_def split: sum.splits)
  from run_batches_frame[OF rb] show "num_epochs s' = num_epochs s" "num_batches s' = num_batches s"
    "epoch s' = (if diverging (train_loss e) then num_epochs s + 1 else epoch s + 1)"
    "seed s' = seed s" "rng s' = rng s"
    by (simp_all add: s' epoch_end_frame)
qed

text \<open>
  \<^verbatim>\<open>while self.epoch < self.num_epochs\<close>: the externals of a pass are those of the value
  the epoch counter has when the pass starts. Every pass that returns moves the counter up
  and leaves \<^verbatim>\<open>num_epochs\<close> alone, so the loop ends.
\<close>

function train_loop :: "(int \<Rightarrow> epoch_ext) \<Rightarrow> pipeline \<Rightarrow> error + pipeline" where
  "train_loop env s =
     (if epoch s < num_epochs s
      then (case run_epoch (env (epoch s)) s of
              Inl err \<Rightarrow> Inl err
            | Inr s' \<Rightarrow> train_loop env s')
      else Inr s)"
  by pat_completeness auto
termination
proof (relation "measure (\<lambda>(env, s). nat (num_epochs s - epoch s))")
  show "wf (measure (\<lambda>(env, s). nat (num_epochs s - epoch s)))" by simp
next
  fix env s s'
  assume lt: "epoch s < num_epochs s" and r: "run_epoch (env (epoch s)) s = Inr s'"
  from run_epoch_frame(1,3)[OF r] lt
  show "((env, s'), (env, s)) \<in> measure (\<lambda>(env, s). nat (num_epochs s - epoch s))"
    by (auto split: if_splits)
qed


declare train_loop.simps [simp del]

lemma train_loop_done: "\<not> epoch s < num_epochs s \<Longrightarrow> train_loop env s = Inr s"
  by (subst train_loop.simps) simp

lemma train_loop_step:
  "epoch s < num_epochs s \<Longrightarrow> run_epoch (env (epoch s)) s = Inr s1 \<Longrightarrow>
     train_loop env s = train_loop env s1"
  by (subst train_loop.simps) simp

lemma train_loop_error:
  "epoch s < num_epochs s \<Longrightarrow> run_epoch (env (epoch s)) s = Inl err \<Longrightarrow>
     train_loop env s = Inl err"
  by (subst train_loop.simps) simp

lemma train_loop_Inr:
  assumes "train_loop env s = Inr s'" and "epoch s < num_epochs s"
  obtains s1 where "run_epoch (env (epoch s)) s = Inr s1" and "train_loop env s1 = Inr s'"
proof (cases "run_epoch (env (epoch s)) s")
  case (Inl err)
  from train_loop_error[where s=s and env=env, OF assms(2) Inl] assms(1) show ?thesis by simp
next
  case (Inr s1)
  from train_loop_step[where s=s and env=env, OF assms(2) Inr] assms(1) that[OF Inr] show ?thesis by simp
qed

text \<open>
  The two seeding calls (lines 27 and 28, lines 31 and 32). \<^verbatim>\<open>np.random.seed\<close> raises
  \<^verbatim>\<open>ValueError\<close> for a seed outside \<open>0 \<le> seed < 2^32\<close>; otherwise both generators hold
  the seed afterwards.
\<close>

definition seed_generators :: "pipeline \<Rightarrow> error + pipeline" where
  "seed_generators s =
     (if 0 \<le> seed s \<and> seed s < 2 ^ 32 then Inr (s\<lparr>rng := Some (seed s)\<rparr>) else Inl ValueError)"

text \<open>
  \<^verbatim>\<open>run_batch_train\<close>: the seeding, then the loop. What the collaborators return during
  the run depends on the state the generators were put in: \<open>world r k\<close> holds what they
  return in the epoch with counter \<open>k\<close> of a run whose generators hold \<open>r\<close>.
\<close>

definition run_batch_train ::
  "(int option \<Rightarrow> int \<Rightarrow> epoch_ext) \<Rightarrow> pipeline \<Rightarrow> error + pipeline" where
  "run_batch_train world s =
     (case seed_generators s of
        Inl e \<Rightarrow> Inl e
      | Inr s1 \<Rightarrow> train_loop (world (rng s1)) s1)"

text \<open>\<^verbatim>\<open>run_train\<close> (lines 26 to 28): the two seeding calls and nothing else.\<close>

definition run_train :: "pipeline \<Rightarrow> error + pipeline" where
  "run_train s = seed_generators s"

text \<open>\<^verbatim>\<open>run_fed_train\<close> (lines 143 and 144).\<close>

definition run_fed_train :: "pipeline \<Rightarrow> error + pipeline" where
  "run_fed_train s = Inl NotImplementedError"

lemma seed_generators_Inr:
  assumes "seed_generators s = Inr s1"
  shows "0 \<le> seed s" "seed s < 2 ^ 32" "s1 = s\<lparr>rng := Some (seed s)\<rparr>"
  using assms by (auto simp: seed_generators_def split: if_splits)

lemma run_batch_train_Inr:
  assumes "run_batch_train world s = Inr s'"
  shows "0 \<le> seed s" "seed s < 2 ^ 32"
    "train_loop (world (Some (seed s))) (s\<lparr>rng := Some (seed s)\<rparr>) = Inr s'"
proof -
  from assms obtain s1 where
    g: "seed_generators s = Inr s1" and l: "train_loop (world (rng s1)) s1 = Inr s'"
    by (auto simp: run_batch_train_def split: sum.splits)
  from seed_generators_Inr[OF g] l
  show "0 \<le> seed s" "seed s < 2 ^ 32"
    "train_loop (world (Some (seed s))) (s\<lparr>rng := Some (seed s)\<rparr>) = Inr s'"
    by simp_all
qed

subsection \<open>\<^verbatim>\<open>run_main\<close>\<close>

text \<open>Lines 190 to 196, the dispatch on \<^verbatim>\<open>train_mode\<close> for one trainer.\<close>

definition launch ::
  "string \<Rightarrow> (int option \<Rightarrow> int \<Rightarrow> epoch_ext) \<Rightarrow> pipeline \<Rightarrow> error + pipeline" where
  "launch train_mode world trainer =
     (if train_mode = ''vanilla'' then run_train trainer
      else if train_mode = ''distributed'' then run_batch_train world trainer
      else Inl NotImplementedError)"

text \<open>
  The loop of lines 185 to 197 over the seeds that are left. \<open>new_trainer sd\<close> is
  \<^verbatim>\<open>ActiveSamplingRobust(config=config, seed=sd)\<close> for the configuration that was loaded:
  the trainer, or the exception that the constructor raised.
\<close>

fun run_seeds ::
  "string \<Rightarrow> (int \<Rightarrow> error + pipeline) \<Rightarrow> (int option \<Rightarrow> int \<Rightarrow> epoch_ext) \<Rightarrow> int list \<Rightarrow>
     metrics list \<Rightarrow> error + metrics list" where
  "run_seeds train_mode new_trainer world [] results = Inr results"
| "run_seeds train_mode new_trainer world (sd # sds) results =
     (case new_trainer sd of
        Inl e \<Rightarrow> Inl e
      | Inr trainer \<Rightarrow>
      (case launch train_mode world trainer of
        Inl e \<Rightarrow> Inl e
      | Inr trained \<Rightarrow>
          run_seeds train_mode new_trainer world sds (results @ [metrics trained])))"

text \<open>
  \<^verbatim>\<open>np.arange(n)\<close> for a Python int: empty for \<open>n \<le> 0\<close>, the numbers below \<open>n\<close> when the
  array can be built. \<open>too_long n\<close> is the exception that numpy raises for a length it
  cannot build on the machine (\<^verbatim>\<open>ValueError\<close>, \<^verbatim>\<open>MemoryError\<close>), \<open>None\<close> when it can.
\<close>

definition np_arange :: "(int \<Rightarrow> error option) \<Rightarrow> int \<Rightarrow> error + int list" where
  "np_arange too_long n =
     (if n \<le> 0 then Inr []
      else case too_long n of Some e \<Rightarrow> Inl e | None \<Rightarrow> Inr (map int [0..<nat n]))"

text \<open>
  \<^verbatim>\<open>run_main\<close> with the parsed \<^verbatim>\<open>--train_mode\<close> and \<^verbatim>\<open>--n_repeat\<close>. \<open>loaded\<close> is what
  lines 179 and 180 give, the configuration or the exception raised while reading it;
  the value is the list that line 205 writes out.
\<close>

definition run_main ::
  "string \<Rightarrow> int \<Rightarrow> error + 'c \<Rightarrow> ('c \<Rightarrow> int \<Rightarrow> error + pipeline) \<Rightarrow>
     (int option \<Rightarrow> int \<Rightarrow> epoch_ext) \<Rightarrow> (int \<Rightarrow> error option) \<Rightarrow> error + metrics list" where
  "run_main train_mode n_repeat loaded new_trainer world too_long =
     (case loaded of
        Inl e \<Rightarrow> Inl e
      | Inr config \<Rightarrow>
      (case np_arange too_long n_repeat of
        Inl e \<Rightarrow> Inl e
      | Inr seeds \<Rightarrow> run_seeds train_mode (new_trainer config) world seeds []))"

subsection \<open>The state a run starts from\<close>

text \<open>
  Modelled from the spec: \<^verbatim>\<open>TrainPipeline.__init__\<close> of \<^verbatim>\<open>src/training_manager.py\<close>,
  which is not among the source files. The spec gives the initial state as "epoch = 0,
  empty metrics, no buffer allocated"; the window size, the number of epochs and the
  optional compressor come from the configuration, and the aggregation rule starts with
  both counters at zero.
\<close>

record config =
  cfg_num_epochs :: int
  cfg_num_batches :: int
  cfg_compressor :: "compressor option"

definition empty_metrics :: metrics where
  "empty_metrics =
     \<lparr>m_num_iter = 0, m_num_grad_steps = 0, m_num_opt_steps = 0, m_num_param = None,
      m_epoch_grad_cost = [], m_epoch_agg_cost = [], m_epoch_gm_iter = [],
      m_epoch_compression_cost = [], m_jacobian_residual = [],
      m_total_grad_cost = None, m_total_agg_cost = None, m_total_gm_iter = None,
      m_total_compression_cost = None, m_total_cost = None, m_avg_gm_cost = None\<rparr>"

definition TrainPipeline_init :: "config \<Rightarrow> int \<Rightarrow> pipeline" where
  "TrainPipeline_init cfg sd =
     \<lparr>seed = sd, rng = None, epoch = 0, num_epochs = cfg_num_epochs cfg,
      num_batches = cfg_num_batches cfg, G = None, I_k = None, C_J = cfg_compressor cfg,
      gar = \<lparr>agg_time = 0, num_iter = 0\<rparr>, metrics = empty_metrics, model_updates = []\<rparr>"

subsection \<open>Externals used in the examples\<close>

text \<open>
  A batch whose gradient is \<open>[1, 2]\<close>, computed in one time unit, with an aggregation
  rule that returns \<open>[5, 6]\<close> after three iterations and two time units; a window of four
  batches; an epoch of four such batches that ends with the loss \<open>0.5\<close>.
\<close>

definition ex_batch :: batch_ext where
  "ex_batch = \<lparr>g_i = [1, 2], t_iter = 0, t_iter_end = 1, lr = 1, t0 = 0, t_compress_end = 0,
      compress = (\<lambda>c M r. ([], c)),
      aggregate = (\<lambda>g M ix ax. ([5, 6], \<lparr>agg_time = 2, num_iter = 3\<rparr>))\<rparr>"

definition ex_config :: config where
  "ex_config = \<lparr>cfg_num_epochs = 1, cfg_num_batches = 4, cfg_compressor = None\<rparr>"

definition ex_env :: "int \<Rightarrow> epoch_ext" where
  "ex_env k = \<lparr>train_loader = [ex_batch, ex_batch, ex_batch, ex_batch], train_loss = Finite 0.5\<rparr>"

text \<open>The collaborators of the example return the same whatever the generators hold.\<close>

definition ex_world :: "int option \<Rightarrow> int \<Rightarrow> epoch_ext" where
  "ex_world r = ex_env"

lemmas batch_eval = TrainPipeline_init_def empty_metrics_def fresh_locals_def batch_step_def
  ensure_G_def count_batch_def np_zeros_def py_mod_def set_row_def after_write_def
  append_costs_def aggregation_phase_def Let_def eval_nat_numeral

lemmas epoch_eval = run_epoch_def epoch_end_def update_totals_def diverging_def gt_1e3_def
  isnan_def isinf_def

lemmas run_eval = run_batch_train_def seed_generators_def train_loop.simps

subsection \<open>Counters of the batch loop\<close>

lemma aggregation_phase_counts:
  "m_num_opt_steps (metrics (fst (aggregation_phase b M sl))) = m_num_opt_steps (metrics (fst sl)) + 1"
  "length (model_updates (fst (aggregation_phase b M sl))) = length (model_updates (fst sl)) + 1"
  "m_num_iter (metrics (fst (aggregation_phase b M sl))) = m_num_iter (metrics (fst sl))"
  "m_num_grad_steps (metrics (fst (aggregation_phase b M sl))) = m_num_grad_steps (metrics (fst sl))"
  "m_num_param (metrics (fst (aggregation_phase b M sl))) = m_num_param (metrics (fst sl))"
  by (simp_all add: aggregation_phase_def Let_def split: option.splits prod.splits)

lemma append_costs_counts:
  "m_num_opt_steps (metrics (fst (append_costs sl))) = m_num_opt_steps (metrics (fst sl))"
  "m_num_iter (metrics (fst (append_costs sl))) = m_num_iter (metrics (fst sl))"
  "m_num_grad_steps (metrics (fst (append_costs sl))) = m_num_grad_steps (metrics (fst sl))"
  "m_num_param (metrics (fst (append_costs sl))) = m_num_param (metrics (fst sl))"
  "m_jacobian_residual (metrics (fst (append_costs sl))) = m_jacobian_residual (metrics (fst sl))"
  by (simp_all add: append_costs_def Let_def)

lemma ensure_G_counts:
  assumes "ensure_G g s = Inr (s1, M)"
  shows "m_num_opt_steps (metrics s1) = m_num_opt_steps (metrics s)"
    "m_num_iter (metrics s1) = m_num_iter (metrics s)"
    "m_num_grad_steps (metrics s1) = m_num_grad_steps (metrics s)"
    "m_jacobian_residual (metrics s1) = m_jacobian_residual (metrics s)"
  using assms by (auto simp: ensure_G_def Let_def split: option.splits sum.splits)

lemma count_batch_counts:
  "m_num_opt_steps (metrics (count_batch s)) = m_num_opt_steps (metrics s)"
  "m_num_iter (metrics (count_batch s)) = m_num_iter (metrics s) + 1"
  "m_num_grad_steps (metrics (count_batch s)) = m_num_grad_steps (metrics s) + 1"
  "m_jacobian_residual (metrics (count_batch s)) = m_jacobian_residual (metrics s)"
  by (simp_all add: count_batch_def)

lemma py_mod_Inr: "py_mod a b = Inr r \<Longrightarrow> b \<noteq> 0 \<and> r = a mod b"
  by (auto simp: py_mod_def split: if_splits)

lemma after_write_counts:
  "m_num_iter (metrics (fst (after_write i a b M sl))) = m_num_iter (metrics (fst sl))"
  "m_num_grad_steps (metrics (fst (after_write i a b M sl))) = m_num_grad_steps (metrics (fst sl))"
  "m_num_param (metrics (fst (after_write i a b M sl))) = m_num_param (metrics (fst sl))"
  by (simp_all add: after_write_def Let_def append_costs_counts aggregation_phase_counts)

lemma batch_step_counts:
  assumes "batch_step i b sl = Inr sl'"
  shows "m_num_iter (metrics (fst sl')) = m_num_iter (metrics (fst sl)) + 1"
    "m_num_grad_steps (metrics (fst sl')) = m_num_grad_steps (metrics (fst sl)) + 1"
proof -
  from assms obtain s1 M ix agg_ix M' where
    e: "ensure_G (g_i b) (count_batch (fst sl)) = Inr (s1, M)" and
    "py_mod i (num_batches s1) = Inr ix"
    "py_mod (i + 1) (num_batches s1) = Inr agg_ix"
    "set_row M ix (g_i b) = Inr M'" and
    r: "sl' = after_write i agg_ix b M' (s1\<lparr>G := Some M'\<rparr>, snd sl)"
    by (rule batch_step_Inr)
  show "m_num_iter (metrics (fst sl')) = m_num_iter (metrics (fst sl)) + 1"
    "m_num_grad_steps (metrics (fst sl')) = m_num_grad_steps (metrics (fst sl)) + 1"
    by (simp_all add: r after_write_counts ensure_G_counts[OF e] count_batch_counts)
qed

lemma run_batches_counts:
  "run_batches i bs sl = Inr sl' \<Longrightarrow>
     m_num_iter (metrics (fst sl')) = m_num_iter (metrics (fst sl)) + int (length bs) \<and>
     m_num_grad_steps (metrics (fst sl')) = m_num_grad_steps (metrics (fst sl)) + int (length bs)"
proof (induction bs arbitrary: i sl)
  case Nil
  then show ?case by simp
next
  case (Cons b bs)
  from Cons.prems obtain sl1 where
    st: "batch_step i b sl = Inr sl1" and rest: "run_batches (i + 1) bs sl1 = Inr sl'"
    by (auto split: sum.splits)
  from Cons.IH[OF rest] batch_step_counts[OF st] show ?case by simp
qed

lemma update_totals_counts:
  "m_num_iter (update_totals m) = m_num_iter m"
  "m_num_grad_steps (update_totals m) = m_num_grad_steps m"
  "m_num_opt_steps (update_totals m) = m_num_opt_steps m"
  "m_num_param (update_totals m) = m_num_param m"
  "m_epoch_grad_cost (update_totals m) = m_epoch_grad_cost m"
  "m_epoch_agg_cost (update_totals m) = m_epoch_agg_cost m"
  "m_epoch_gm_iter (update_totals m) = m_epoch_gm_iter m"
  "m_epoch_compression_cost (update_totals m) = m_epoch_compression_cost m"
  "m_jacobian_residual (update_totals m) = m_jacobian_residual m"
  by (simp_all add: update_totals_def Let_def)

lemma epoch_end_counts:
  "m_num_iter (metrics (epoch_end x s)) = m_num_iter (metrics s)"
  "m_num_grad_steps (metrics (epoch_end x s)) = m_num_grad_steps (metrics s)"
  by (simp_all add: epoch_end_def Let_def update_totals_counts)

lemma run_epoch_counts:
  assumes "run_epoch e s = Inr s'"
  shows "m_num_iter (metrics s') - m_num_iter (metrics s) =
         m_num_grad_steps (metrics s') - m_num_grad_steps (metrics s)"
proof -
  from assms obtain sl where
    rb: "run_batches 0 (train_loader e) (s, fresh_locals) = Inr sl" and
    s': "s' = epoch_end (train_loss e) (fst sl)"
    by (auto simp: run_epoch_def split: sum.splits)
  from run_batches_counts[OF rb] show ?thesis
    by (simp add: s' epoch_end_counts)
qed

lemma train_loop_counts:
  "train_loop env s = Inr s' \<Longrightarrow>
     m_num_iter (metrics s') - m_num_iter (metrics s) =
     m_num_grad_steps (metrics s') - m_num_grad_steps (metrics s)"
proof (induction env s rule: train_loop.induct)
  case (1 env s)
  show ?case
  proof (cases "epoch s < num_epochs s")
    case False
    from train_loop_done[OF False] "1.prems" show ?thesis by simp
  next
    case True
    from "1.prems" True obtain s1 where
      e: "run_epoch (env (epoch s)) s = Inr s1" and rest: "train_loop env s1 = Inr s'"
      by (rule train_loop_Inr)
    from "1.IH"[OF True e rest] run_epoch_counts[OF e] show ?thesis by simp
  qed
qed


subsection \<open>The aggregation trigger\<close>

text \<open>
  C1. A batch at index \<open>batch_ix\<close> that is processed without an exception runs the
  aggregation phase exactly when \<open>(batch_ix + 1) mod W = 0\<close> and \<open>batch_ix \<noteq> 0\<close>, where \<open>W\<close>
  is \<^verbatim>\<open>num_batches\<close>. In that case, with the matrix \<open>M\<close> as the batch leaves it: when a
  compressor is configured, \<^verbatim>\<open>compress\<close> is called on \<open>M\<close> and the learning rate, its index
  set and the compressor are stored, its residual is appended and its duration added to
  the compression cost, and the aggregation rule is called on the compressed matrix;
  without a compressor the rule is called on \<open>M\<close>. The aggregate is handed to the
  optimizer, the rule's counters are added to the accumulators and reset, and
  \<^verbatim>\<open>num_opt_steps\<close> goes up by one. In every other batch \<^verbatim>\<open>num_opt_steps\<close>, the model, the
  aggregation rule, the compressor, the index set, the residual series and the three
  accumulators that only the aggregation phase feeds are all as before.
\<close>

theorem aggregation_runs_iff_full_cycle:
  assumes "batch_step batch_ix b sl = Inr sl'"
  shows "\<exists>M. G (fst sl') = Some M \<and>
    (if (batch_ix + 1) mod num_batches (fst sl) = 0 \<and> batch_ix \<noteq> 0
     then m_num_opt_steps (metrics (fst sl')) = m_num_opt_steps (metrics (fst sl)) + 1 \<and>
          agg_time (gar (fst sl')) = 0 \<and> num_iter (gar (fst sl')) = 0 \<and>
          (case C_J (fst sl) of
             None \<Rightarrow>
               (let r = aggregate b (gar (fst sl)) M (I_k (fst sl)) 0 in
                model_updates (fst sl') = model_updates (fst sl) @ [fst r] \<and>
                epoch_gm_iter (snd sl') = epoch_gm_iter (snd sl) + num_iter (snd r) \<and>
                epoch_agg_cost (snd sl') = epoch_agg_cost (snd sl) + agg_time (snd r) \<and>
                C_J (fst sl') = None \<and> I_k (fst sl') = I_k (fst sl) \<and>
                m_jacobian_residual (metrics (fst sl')) =
                  m_jacobian_residual (metrics (fst sl)) \<and>
                epoch_compression_cost (snd sl') = epoch_compression_cost (snd sl))
           | Some c \<Rightarrow>
               (let cr = compress b c M (lr b);
                    r = aggregate b (gar (fst sl)) (G_sparse (snd cr)) (Some (fst cr))
                          (axis (snd cr)) in
                I_k (fst sl') = Some (fst cr) \<and> C_J (fst sl') = Some (snd cr) \<and>
                m_jacobian_residual (metrics (fst sl')) =
                  m_jacobian_residual (metrics (fst sl)) @ [normalized_residual (snd cr)] \<and>
                epoch_compression_cost (snd sl') =
                  epoch_compression_cost (snd sl) + (t_compress_end b - t0 b) \<and>
                model_updates (fst sl') = model_updates (fst sl) @ [fst r] \<and>
                epoch_gm_iter (snd sl') = epoch_gm_iter (snd sl) + num_iter (snd r) \<and>
                epoch_agg_cost (snd sl') = epoch_agg_cost (snd sl) + agg_time (snd r)))
     else m_num_opt_steps (metrics (fst sl')) = m_num_opt_steps (metrics (fst sl)) \<and>
          model_updates (fst sl') = model_updates (fst sl) \<and>
          gar (fst sl') = gar (fst sl) \<and> C_J (fst sl') = C_J (fst sl) \<and>
          I_k (fst sl') = I_k (fst sl) \<and>
          m_jacobian_residual (metrics (fst sl')) = m_jacobian_residual (metrics (fst sl)) \<and>
          epoch_agg_cost (snd sl') = epoch_agg_cost (snd sl) \<and>
          epoch_gm_iter (snd sl') = epoch_gm_iter (snd sl) \<and>
          epoch_compression_cost (snd sl') = epoch_compression_cost (snd sl))"
proof -
  from assms obtain s1 M ix agg_ix M' where
    e: "ensure_G (g_i b) (count_batch (fst sl)) = Inr (s1, M)" and
    "py_mod batch_ix (num_batches s1) = Inr ix" and
    a: "py_mod (batch_ix + 1) (num_batches s1) = Inr agg_ix" and
    "set_row M ix (g_i b) = Inr M'" and
    r: "sl' = after_write batch_ix agg_ix b M' (s1\<lparr>G := Some M'\<rparr>, snd sl)"
    by (rule batch_step_Inr)
  have w: "num_batches s1 = num_batches (fst sl)"
    using ensure_G_frame(3)[OF e] by (simp add: count_batch_frame)
  have agg: "agg_ix = (batch_ix + 1) mod num_batches (fst sl)"
    using py_mod_Inr[OF a] w by simp
  have s1: "gar s1 = gar (fst sl)" "C_J s1 = C_J (fst sl)" "I_k s1 = I_k (fst sl)"
    "model_updates s1 = model_updates (fst sl)"
    "m_num_opt_steps (metrics s1) = m_num_opt_steps (metrics (fst sl))"
    "m_jacobian_residual (metrics s1) = m_jacobian_residual (metrics (fst sl))"
    by (simp_all add: ensure_G_frame[OF e] ensure_G_counts[OF e] count_batch_frame
        count_batch_counts)
  have g: "G (fst sl') = Some M'"
    by (simp add: r after_write_frame)
  have body: "if (batch_ix + 1) mod num_batches (fst sl) = 0 \<and> batch_ix \<noteq> 0
     then m_num_opt_steps (metrics (fst sl')) = m_num_opt_steps (metrics (fst sl)) + 1 \<and>
          agg_time (gar (fst sl')) = 0 \<and> num_iter (gar (fst sl')) = 0 \<and>
          (case C_J (fst sl) of
             None \<Rightarrow>
               (let r = aggregate b (gar (fst sl)) M' (I_k (fst sl)) 0 in
                model_updates (fst sl') = model_updates (fst sl) @ [fst r] \<and>
                epoch_gm_iter (snd sl') = epoch_gm_iter (snd sl) + num_iter (snd r) \<and>
                epoch_agg_cost (snd sl') = epoch_agg_cost (snd sl) + agg_time (snd r) \<and>
                C_J (fst sl') = None \<and> I_k (fst sl') = I_k (fst sl) \<and>
                m_jacobian_residual (metrics (fst sl')) =
                  m_jacobian_residual (metrics (fst sl)) \<and>
                epoch_compression_cost (snd sl') = epoch_compression_cost (snd sl))
           | Some c \<Rightarrow>
               (let cr = compress b c M' (lr b);
                    r = aggregate b (gar (fst sl)) (G_sparse (snd cr)) (Some (fst cr))
                          (axis (snd cr)) in
                I_k (fst sl') = Some (fst cr) \<and> C_J (fst sl') = Some (snd cr) \<and>
                m_jacobian_residual (metrics (fst sl')) =
                  m_jacobian_residual (metrics (fst sl)) @ [normalized_residual (snd cr)] \<and>
                epoch_compression_cost (snd sl') =
                  epoch_compression_cost (snd sl) + (t_compress_end b - t0 b) \<and>
                model_updates (fst sl') = model_updates (fst sl) @ [fst r] \<and>
                epoch_gm_iter (snd sl') = epoch_gm_iter (snd sl) + num_iter (snd r) \<and>
                epoch_agg_cost (snd sl') = epoch_agg_cost (snd sl) + agg_time (snd r)))
     else m_num_opt_steps (metrics (fst sl')) = m_num_opt_steps (metrics (fst sl)) \<and>
          model_updates (fst sl') = model_updates (fst sl) \<and>
          gar (fst sl') = gar (fst sl) \<and> C_J (fst sl') = C_J (fst sl) \<and>
          I_k (fst sl') = I_k (fst sl) \<and>
          m_jacobian_residual (metrics (fst sl')) = m_jacobian_residual (metrics (fst sl)) \<and>
          epoch_agg_cost (snd sl') = epoch_agg_cost (snd sl) \<and>
          epoch_gm_iter (snd sl') = epoch_gm_iter (snd sl) \<and>
          epoch_compression_cost (snd sl') = epoch_compression_cost (snd sl)"
  proof (cases "(batch_ix + 1) mod num_batches (fst sl) = 0 \<and> batch_ix \<noteq> 0")
    case False
    with agg show ?thesis
      by (auto simp add: r after_write_def Let_def append_costs_frame append_costs_counts s1)
  next
    case True
    show ?thesis
    proof (cases "C_J (fst sl)")
      case None
      with True agg s1 show ?thesis
        by (simp add: r after_write_def append_costs_def aggregation_phase_def Let_def)
    next
      case (Some c)
      with True agg s1 show ?thesis
        by (simp add: r after_write_def append_costs_def aggregation_phase_def Let_def
            case_prod_beta)
    qed
  qed
  from g body show ?thesis by blast
qed

text \<open>
  A configuration with a compressor, and a batch whose \<^verbatim>\<open>compress\<close> keeps column 0 with
  the sparse matrix \<open>[[9]]\<close> and a residual of a quarter, within three time units, and
  whose aggregation rule returns the entries of the matrix it is given.
\<close>

definition comp_config :: config where
  "comp_config = ex_config\<lparr>cfg_compressor :=
     Some \<lparr>normalized_residual = 0, G_sparse = [], axis = 0\<rparr>\<rparr>"

definition comp_batch :: batch_ext where
  "comp_batch = ex_batch
     \<lparr>t_compress_end := 3,
      compress := (\<lambda>c M r. ([0], \<lparr>normalized_residual = 1 / 4, G_sparse = [[9]], axis = 1\<rparr>)),
      aggregate := (\<lambda>g M ix ax. (concat M, \<lparr>agg_time = 2, num_iter = 3\<rparr>))\<rparr>"

text \<open>
  With a window of four, from the initial state: the batch at index 3 triggers the
  aggregation, without and with a compressor; the batches at indices 0, 1 and 2 do not.
\<close>

theorem aggregation_runs_iff_full_cycle_witness:
  "(\<exists>sl'. batch_step 3 ex_batch (TrainPipeline_init ex_config 0, fresh_locals) = Inr sl' \<and>
      m_num_opt_steps (metrics (fst sl')) = 1 \<and> model_updates (fst sl') = [[5, 6]] \<and>
      epoch_gm_iter (snd sl') = 3 \<and> epoch_agg_cost (snd sl') = 2) \<and>
   (\<exists>sl'. batch_step 3 comp_batch (TrainPipeline_init comp_config 0, fresh_locals) = Inr sl' \<and>
      m_num_opt_steps (metrics (fst sl')) = 1 \<and> model_updates (fst sl') = [[9]] \<and>
      I_k (fst sl') = Some [0] \<and> m_jacobian_residual (metrics (fst sl')) = [1 / 4] \<and>
      epoch_compression_cost (snd sl') = 3) \<and>
   (\<exists>sl'. batch_step 2 ex_batch (TrainPipeline_init ex_config 0, fresh_locals) = Inr sl' \<and>
      m_num_opt_steps (metrics (fst sl')) = 0 \<and> model_updates (fst sl') = []) \<and>
   (\<exists>sl'. batch_step 1 ex_batch (TrainPipeline_init ex_config 0, fresh_locals) = Inr sl' \<and>
      m_num_opt_steps (metrics (fst sl')) = 0 \<and> model_updates (fst sl') = []) \<and>
   (\<exists>sl'. batch_step 0 ex_batch (TrainPipeline_init ex_config 0, fresh_locals) = Inr sl' \<and>
      m_num_opt_steps (metrics (fst sl')) = 0 \<and> model_updates (fst sl') = [])"
proof -
  let ?s = "(TrainPipeline_init ex_config 0, fresh_locals)"
  let ?c = "(TrainPipeline_init comp_config 0, fresh_locals)"
  have init: "num_batches (fst ?s) = 4" "m_num_opt_steps (metrics (fst ?s)) = 0"
    "model_updates (fst ?s) = []" "C_J (fst ?s) = None" "epoch_gm_iter (snd ?s) = 0"
    "epoch_agg_cost (snd ?s) = 0"
    by (simp_all add: TrainPipeline_init_def ex_config_def empty_metrics_def fresh_locals_def)
  have initc: "num_batches (fst ?c) = 4" "m_num_opt_steps (metrics (fst ?c)) = 0"
    "model_updates (fst ?c) = []" "m_jacobian_residual (metrics (fst ?c)) = []"
    "C_J (fst ?c) = Some \<lparr>normalized_residual = 0, G_sparse = [], axis = 0\<rparr>"
    "epoch_compression_cost (snd ?c) = 0"
    by (simp_all add: TrainPipeline_init_def ex_config_def comp_config_def empty_metrics_def
        fresh_locals_def)
  have ag: "aggregate ex_batch g M ix ax = ([5, 6], \<lparr>agg_time = 2, num_iter = 3\<rparr>)" for g M ix ax
    by (simp add: ex_batch_def)
  have cp: "compress comp_batch c M r =
      ([0], \<lparr>normalized_residual = 1 / 4, G_sparse = [[9]], axis = 1\<rparr>)"
    "aggregate comp_batch g M ix ax = (concat M, \<lparr>agg_time = 2, num_iter = 3\<rparr>)"
    "t_compress_end comp_batch = 3" "t0 comp_batch = 0" for c M r g ix ax
    by (simp_all add: comp_batch_def ex_batch_def)
  obtain a where a: "batch_step 3 ex_batch ?s = Inr a"
    by (simp add: batch_eval ex_batch_def ex_config_def)
  obtain k where k: "batch_step 3 comp_batch ?c = Inr k"
    by (simp add: batch_eval ex_batch_def ex_config_def comp_config_def comp_batch_def)
  obtain b where b: "batch_step 2 ex_batch ?s = Inr b"
    by (simp add: batch_eval ex_batch_def ex_config_def)
  obtain c where c: "batch_step 1 ex_batch ?s = Inr c"
    by (simp add: batch_eval ex_batch_def ex_config_def)
  obtain d where d: "batch_step 0 ex_batch ?s = Inr d"
    by (simp add: batch_eval ex_batch_def ex_config_def)
  from aggregation_runs_iff_full_cycle[OF a] init ag
  have A: "m_num_opt_steps (metrics (fst a)) = 1 \<and> model_updates (fst a) = [[5, 6]] \<and>
      epoch_gm_iter (snd a) = 3 \<and> epoch_agg_cost (snd a) = 2"
    by (auto simp: Let_def)
  from aggregation_runs_iff_full_cycle[OF k] initc cp
  have K: "m_num_opt_steps (metrics (fst k)) = 1 \<and> model_updates (fst k) = [[9]] \<and>
      I_k (fst k) = Some [0] \<and> m_jacobian_residual (metrics (fst k)) = [1 / 4] \<and>
      epoch_compression_cost (snd k) = 3"
    by (auto simp: Let_def)
  from aggregation_runs_iff_full_cycle[OF b] init
  have B: "m_num_opt_steps (metrics (fst b)) = 0 \<and> model_updates (fst b) = []"
    by auto
  from aggregation_runs_iff_full_cycle[OF c] init
  have C: "m_num_opt_steps (metrics (fst c)) = 0 \<and> model_updates (fst c) = []"
    by auto
  from aggregation_runs_iff_full_cycle[OF d] init
  have D: "m_num_opt_steps (metrics (fst d)) = 0 \<and> model_updates (fst d) = []"
    by auto
  from a A k K b B c C d D show ?thesis by blast
qed

subsection \<open>The two step counters\<close>

text \<open>
  C10. \<^verbatim>\<open>num_iter\<close> and \<^verbatim>\<open>num_grad_steps\<close> move together: from a state in which they are
  equal, they are equal after any number of batches of an epoch, after a whole pass of the
  epoch loop, and when \<^verbatim>\<open>run_batch_train\<close> returns.
\<close>

theorem num_iter_eq_num_grad_steps:
  assumes "m_num_iter (metrics s) = m_num_grad_steps (metrics s)"
  shows "(run_batches i bs (s, l) = Inr sl' \<longrightarrow>
            m_num_iter (metrics (fst sl')) = m_num_grad_steps (metrics (fst sl'))) \<and>
         (run_epoch e s = Inr s1 \<longrightarrow> m_num_iter (metrics s1) = m_num_grad_steps (metrics s1)) \<and>
         (run_batch_train env s = Inr s' \<longrightarrow>
            m_num_iter (metrics s') = m_num_grad_steps (metrics s'))"
proof (intro conjI impI)
  assume "run_batches i bs (s, l) = Inr sl'"
  from run_batches_counts[OF this] assms
  show "m_num_iter (metrics (fst sl')) = m_num_grad_steps (metrics (fst sl'))" by simp
next
  assume "run_epoch e s = Inr s1"
  from run_epoch_counts[OF this] assms
  show "m_num_iter (metrics s1) = m_num_grad_steps (metrics s1)" by simp
next
  assume "run_batch_train env s = Inr s'"
  then have "train_loop (env (Some (seed s))) (s\<lparr>rng := Some (seed s)\<rparr>) = Inr s'"
    by (rule run_batch_train_Inr)
  from train_loop_counts[OF this] assms
  show "m_num_iter (metrics s') = m_num_grad_steps (metrics s')" by simp
qed

text \<open>
  From the initial state, where both counters are zero: after three batches, after the
  example epoch, and at the end of the example run.
\<close>

theorem num_iter_eq_num_grad_steps_witness:
  "m_num_iter (metrics (TrainPipeline_init ex_config 0)) =
     m_num_grad_steps (metrics (TrainPipeline_init ex_config 0)) \<and>
   (\<exists>sl'. run_batches 0 [ex_batch, ex_batch, ex_batch]
             (TrainPipeline_init ex_config 0, fresh_locals) = Inr sl' \<and>
      m_num_iter (metrics (fst sl')) = 3 \<and> m_num_grad_steps (metrics (fst sl')) = 3) \<and>
   (\<exists>s1. run_epoch (ex_env 0) (TrainPipeline_init ex_config 0) = Inr s1 \<and>
      m_num_iter (metrics s1) = 4 \<and> m_num_grad_steps (metrics s1) = 4) \<and>
   (\<exists>s'. run_batch_train ex_world (TrainPipeline_init ex_config 0) = Inr s' \<and>
      m_num_iter (metrics s') = 4 \<and> m_num_grad_steps (metrics s') = 4)"
proof -
  let ?s = "TrainPipeline_init ex_config 0"
  have eq: "m_num_iter (metrics ?s) = m_num_grad_steps (metrics ?s)"
    by (simp add: TrainPipeline_init_def empty_metrics_def)
  obtain sl' where b: "run_batches 0 [ex_batch, ex_batch, ex_batch] (?s, fresh_locals) = Inr sl'"
    and nb: "m_num_iter (metrics (fst sl')) = 3"
    by (simp add: batch_eval ex_batch_def ex_config_def)
  obtain s1 where e: "run_epoch (ex_env 0) ?s = Inr s1" and n: "m_num_iter (metrics s1) = 4"
    by (simp add: batch_eval epoch_eval ex_batch_def ex_config_def ex_env_def)
  obtain s' where r: "run_batch_train ex_world ?s = Inr s'" and nr: "m_num_iter (metrics s') = 4"
    by (simp add: run_eval batch_eval epoch_eval ex_batch_def ex_config_def ex_env_def
        ex_world_def)
  from num_iter_eq_num_grad_steps
    [OF eq, of 0 "[ex_batch, ex_batch, ex_batch]" fresh_locals sl' "ex_env 0" s1 ex_world s']
    b nb e n r nr eq
  show ?thesis by simp
qed

subsection \<open>The counters of the aggregation rule\<close>

text \<open>
  The call of lines 88 to 92 as the aggregation phase makes it in state \<open>s\<close> with the
  matrix \<open>M\<close>: on the compressed matrix when a compressor is configured, on \<open>M\<close> itself
  otherwise. Its second component is the aggregation rule as the call leaves it.
\<close>

definition agg_call :: "batch_ext \<Rightarrow> real list list \<Rightarrow> pipeline \<Rightarrow> real list \<times> gar_state" where
  "agg_call b M s =
     (case C_J s of
        Some c \<Rightarrow>
          (let (ik, c') = compress b c M (lr b)
           in aggregate b (gar s) (G_sparse c') (Some ik) (axis c'))
      | None \<Rightarrow> aggregate b (gar s) M (I_k s) 0)"

lemma aggregation_phase_gar:
  "gar (fst (aggregation_phase b M sl)) = (snd (agg_call b M (fst sl)))\<lparr>agg_time := 0, num_iter := 0\<rparr>"
  "epoch_gm_iter (snd (aggregation_phase b M sl)) =
     epoch_gm_iter (snd sl) + num_iter (snd (agg_call b M (fst sl)))"
  "epoch_agg_cost (snd (aggregation_phase b M sl)) =
     epoch_agg_cost (snd sl) + agg_time (snd (agg_call b M (fst sl)))"
  "model_updates (fst (aggregation_phase b M sl)) =
     model_updates (fst sl) @ [fst (agg_call b M (fst sl))]"
  by (simp_all add: aggregation_phase_def agg_call_def Let_def case_prod_beta split: option.splits)

lemma agg_call_cong:
  "C_J s = C_J t \<Longrightarrow> gar s = gar t \<Longrightarrow> I_k s = I_k t \<Longrightarrow> agg_call b M s = agg_call b M t"
  by (simp add: agg_call_def split: option.splits)

text \<open>
  C7. In a batch that runs the aggregation phase, the accumulator \<^verbatim>\<open>epoch_gm_iter\<close> grows
  by the \<^verbatim>\<open>num_iter\<close> and \<^verbatim>\<open>epoch_agg_cost\<close> by the \<^verbatim>\<open>agg_time\<close> that the aggregation
  rule shows after the call, and both counters are zero when the batch is done; a batch
  that does not aggregate leaves the aggregation rule as it was. Hence counters that are
  zero stay zero over any run of batches.
\<close>

theorem gar_counters_reset_after_round:
  "(batch_step batch_ix b sl = Inr sl' \<longrightarrow>
      (if (batch_ix + 1) mod num_batches (fst sl) = 0 \<and> batch_ix \<noteq> 0
       then (\<exists>M. G (fst sl') = Some M \<and>
               epoch_gm_iter (snd sl') =
                 epoch_gm_iter (snd sl) + num_iter (snd (agg_call b M (fst sl))) \<and>
               epoch_agg_cost (snd sl') =
                 epoch_agg_cost (snd sl) + agg_time (snd (agg_call b M (fst sl)))) \<and>
            agg_time (gar (fst sl')) = 0 \<and> num_iter (gar (fst sl')) = 0
       else gar (fst sl') = gar (fst sl))) \<and>
   (run_batches i bs sl = Inr sl2 \<longrightarrow>
      agg_time (gar (fst sl)) = 0 \<and> num_iter (gar (fst sl)) = 0 \<longrightarrow>
      agg_time (gar (fst sl2)) = 0 \<and> num_iter (gar (fst sl2)) = 0)"
proof -
  have step: "if (k + 1) mod num_batches (fst t) = 0 \<and> k \<noteq> 0
       then (\<exists>M. G (fst t') = Some M \<and>
               epoch_gm_iter (snd t') =
                 epoch_gm_iter (snd t) + num_iter (snd (agg_call c M (fst t))) \<and>
               epoch_agg_cost (snd t') =
                 epoch_agg_cost (snd t) + agg_time (snd (agg_call c M (fst t)))) \<and>
            agg_time (gar (fst t')) = 0 \<and> num_iter (gar (fst t')) = 0
       else gar (fst t') = gar (fst t)"
    if st: "batch_step k c t = Inr t'" for k c t t'
  proof -
    from st obtain s1 M ix agg_ix M' where
      e: "ensure_G (g_i c) (count_batch (fst t)) = Inr (s1, M)" and
      "py_mod k (num_batches s1) = Inr ix" and
      a: "py_mod (k + 1) (num_batches s1) = Inr agg_ix" and
      "set_row M ix (g_i c) = Inr M'" and
      r: "t' = after_write k agg_ix c M' (s1\<lparr>G := Some M'\<rparr>, snd t)"
      by (rule batch_step_Inr)
    have w: "num_batches s1 = num_batches (fst t)"
      using ensure_G_frame(3)[OF e] by (simp add: count_batch_frame)
    have agg: "agg_ix = (k + 1) mod num_batches (fst t)"
      using py_mod_Inr[OF a] w by simp
    have same: "agg_call c M' (s1\<lparr>G := Some M'\<rparr>) = agg_call c M' (fst t)"
      by (rule agg_call_cong) (simp_all add: ensure_G_frame[OF e] count_batch_frame)
    show ?thesis
    proof (cases "(k + 1) mod num_batches (fst t) = 0 \<and> k \<noteq> 0")
      case True
      have g: "G (fst t') = Some M'"
        using True agg by (simp add: r after_write_def Let_def append_costs_frame aggregation_phase_frame)
      from True agg same g show ?thesis
        by (simp add: r after_write_def Let_def append_costs_frame aggregation_phase_gar)
    next
      case False
      with agg show ?thesis
        by (auto simp add: r after_write_def Let_def append_costs_frame ensure_G_frame[OF e]
            count_batch_frame)
    qed
  qed
  have run: "agg_time (gar (fst t')) = 0 \<and> num_iter (gar (fst t')) = 0"
    if "run_batches k cs t = Inr t'" "agg_time (gar (fst t)) = 0 \<and> num_iter (gar (fst t)) = 0"
    for k cs t t'
    using that
  proof (induction cs arbitrary: k t)
    case Nil
    then show ?case by simp
  next
    case (Cons c cs)
    from Cons.prems(1) obtain t1 where
      st: "batch_step k c t = Inr t1" and rest: "run_batches (k + 1) cs t1 = Inr t'"
      by (auto split: sum.splits)
    from step[OF st] Cons.prems(2)
    have "agg_time (gar (fst t1)) = 0 \<and> num_iter (gar (fst t1)) = 0"
      by (auto split: if_splits)
    from Cons.IH[OF rest this] show ?case .
  qed
  from step run show ?thesis by blast
qed

theorem gar_counters_reset_after_round_witness:
  "(\<exists>sl'. batch_step 3 ex_batch (TrainPipeline_init ex_config 0, fresh_locals) = Inr sl' \<and>
      epoch_gm_iter (snd sl') = 3 \<and> epoch_agg_cost (snd sl') = 2 \<and>
      agg_time (gar (fst sl')) = 0 \<and> num_iter (gar (fst sl')) = 0) \<and>
   (\<exists>sl2. run_batches 0 [ex_batch, ex_batch, ex_batch, ex_batch]
             (TrainPipeline_init ex_config 0, fresh_locals) = Inr sl2 \<and>
      agg_time (gar (fst sl2)) = 0 \<and> num_iter (gar (fst sl2)) = 0)"
proof -
  let ?s = "(TrainPipeline_init ex_config 0, fresh_locals)"
  have init: "num_batches (fst ?s) = 4" "agg_time (gar (fst ?s)) = 0" "num_iter (gar (fst ?s)) = 0"
    "epoch_gm_iter (snd ?s) = 0" "epoch_agg_cost (snd ?s) = 0"
    by (simp_all add: TrainPipeline_init_def ex_config_def fresh_locals_def)
  have call: "agg_call ex_batch M (fst ?s) = ([5, 6], \<lparr>agg_time = 2, num_iter = 3\<rparr>)" for M
    by (simp add: agg_call_def TrainPipeline_init_def ex_config_def ex_batch_def)
  obtain a where a: "batch_step 3 ex_batch ?s = Inr a"
    by (simp add: batch_eval ex_batch_def ex_config_def)
  obtain r where r: "run_batches 0 [ex_batch, ex_batch, ex_batch, ex_batch] ?s = Inr r"
    by (simp add: batch_eval ex_batch_def ex_config_def)
  from gar_counters_reset_after_round[of 3 ex_batch ?s a 0 "[ex_batch, ex_batch, ex_batch, ex_batch]" r]
    a r init call
  show ?thesis by auto
qed

subsection \<open>The series only grow\<close>

text \<open>Every series of the second metrics record starts with the same series of the first.\<close>

definition series_extended :: "metrics \<Rightarrow> metrics \<Rightarrow> bool" where
  "series_extended m m' =
     (prefix (m_epoch_grad_cost m) (m_epoch_grad_cost m') \<and>
      prefix (m_epoch_agg_cost m) (m_epoch_agg_cost m') \<and>
      prefix (m_epoch_gm_iter m) (m_epoch_gm_iter m') \<and>
      prefix (m_epoch_compression_cost m) (m_epoch_compression_cost m') \<and>
      prefix (m_jacobian_residual m) (m_jacobian_residual m'))"

lemma series_extended_refl: "series_extended m m"
  by (simp add: series_extended_def)

lemma series_extended_trans:
  "series_extended m1 m2 \<Longrightarrow> series_extended m2 m3 \<Longrightarrow> series_extended m1 m3"
  unfolding series_extended_def by (meson prefix_order.order_trans)

lemma count_batch_series: "series_extended (metrics s) (metrics (count_batch s))"
  by (simp add: series_extended_def count_batch_def)

lemma ensure_G_series:
  "ensure_G g s = Inr (s1, M) \<Longrightarrow> series_extended (metrics s) (metrics s1)"
  by (auto simp: ensure_G_def Let_def series_extended_def split: option.splits sum.splits)

lemma aggregation_phase_series:
  "series_extended (metrics (fst sl)) (metrics (fst (aggregation_phase b M sl)))"
  by (simp add: aggregation_phase_def Let_def case_prod_beta series_extended_def split: option.splits)

lemma append_costs_series:
  "series_extended (metrics (fst sl)) (metrics (fst (append_costs sl)))"
  by (simp add: append_costs_def Let_def series_extended_def)

lemma after_write_series:
  "series_extended (metrics (fst sl)) (metrics (fst (after_write i a b M sl)))"
  unfolding after_write_def Let_def
  by (rule series_extended_trans[OF _ append_costs_series])
     (simp add: aggregation_phase_series[of "(fst sl, _)", simplified] series_extended_refl)

lemma batch_step_series:
  assumes "batch_step i b sl = Inr sl'"
  shows "series_extended (metrics (fst sl)) (metrics (fst sl'))"
proof -
  from assms obtain s1 M ix agg_ix M' where
    e: "ensure_G (g_i b) (count_batch (fst sl)) = Inr (s1, M)" and
    "py_mod i (num_batches s1) = Inr ix"
    "py_mod (i + 1) (num_batches s1) = Inr agg_ix"
    "set_row M ix (g_i b) = Inr M'" and
    r: "sl' = after_write i agg_ix b M' (s1\<lparr>G := Some M'\<rparr>, snd sl)"
    by (rule batch_step_Inr)
  have "series_extended (metrics (fst sl)) (metrics s1)"
    by (rule series_extended_trans[OF count_batch_series ensure_G_series[OF e]])
  moreover have "series_extended (metrics s1) (metrics (fst sl'))"
    using after_write_series[of "(s1\<lparr>G := Some M'\<rparr>, snd sl)" i agg_ix b M'] by (simp add: r)
  ultimately show ?thesis by (rule series_extended_trans)
qed

lemma run_batches_series:
  "run_batches i bs sl = Inr sl' \<Longrightarrow> series_extended (metrics (fst sl)) (metrics (fst sl'))"
proof (induction bs arbitrary: i sl)
  case Nil
  then show ?case by (simp add: series_extended_refl)
next
  case (Cons b bs)
  from Cons.prems obtain sl1 where
    st: "batch_step i b sl = Inr sl1" and rest: "run_batches (i + 1) bs sl1 = Inr sl'"
    by (auto split: sum.splits)
  from batch_step_series[OF st] Cons.IH[OF rest] show ?case by (rule series_extended_trans)
qed

lemma epoch_end_series: "series_extended (metrics s) (metrics (epoch_end x s))"
  by (simp add: epoch_end_def Let_def series_extended_def update_totals_counts)

lemma run_epoch_series:
  assumes "run_epoch e s = Inr s'"
  shows "series_extended (metrics s) (metrics s')"
proof -
  from assms obtain sl where
    rb: "run_batches 0 (train_loader e) (s, fresh_locals) = Inr sl" and
    s': "s' = epoch_end (train_loss e) (fst sl)"
    by (auto simp: run_epoch_def split: sum.splits)
  from run_batches_series[OF rb] epoch_end_series[of "fst sl" "train_loss e"]
  show ?thesis unfolding s' by (auto intro: series_extended_trans)
qed

lemma train_loop_series:
  "train_loop env s = Inr s' \<Longrightarrow> series_extended (metrics s) (metrics s')"
proof (induction env s rule: train_loop.induct)
  case (1 env s)
  show ?case
  proof (cases "epoch s < num_epochs s")
    case False
    from train_loop_done[OF False] "1.prems" show ?thesis by (simp add: series_extended_refl)
  next
    case True
    from "1.prems" True obtain s1 where
      e: "run_epoch (env (epoch s)) s = Inr s1" and rest: "train_loop env s1 = Inr s'"
      by (rule train_loop_Inr)
    from run_epoch_series[OF e] "1.IH"[OF True e rest] show ?thesis
      by (rule series_extended_trans)
  qed
qed

subsection \<open>Totals at the end of an epoch\<close>

text \<open>
  Every entry of the \<^verbatim>\<open>epoch_gm_iter\<close> series is positive, and \<^verbatim>\<open>avg_gm_cost\<close> is absent
  as long as that series is empty.
\<close>

definition gm_series_ok :: "metrics \<Rightarrow> bool" where
  "gm_series_ok m =
     (list_all (\<lambda>x. 0 < x) (m_epoch_gm_iter m) \<and>
      (m_epoch_gm_iter m \<noteq> [] \<or> m_avg_gm_cost m = None))"

lemma gm_series_ok_empty: "gm_series_ok empty_metrics"
  by (simp add: gm_series_ok_def empty_metrics_def)

lemma count_batch_gm:
  "m_epoch_gm_iter (metrics (count_batch s)) = m_epoch_gm_iter (metrics s)"
  "m_avg_gm_cost (metrics (count_batch s)) = m_avg_gm_cost (metrics s)"
  by (simp_all add: count_batch_def)

lemma ensure_G_gm:
  assumes "ensure_G g s = Inr (s1, M)"
  shows "m_epoch_gm_iter (metrics s1) = m_epoch_gm_iter (metrics s)"
    "m_avg_gm_cost (metrics s1) = m_avg_gm_cost (metrics s)"
  using assms by (auto simp: ensure_G_def Let_def split: option.splits sum.splits)

lemma aggregation_phase_gm:
  "m_epoch_gm_iter (metrics (fst (aggregation_phase b M sl))) = m_epoch_gm_iter (metrics (fst sl))"
  "m_avg_gm_cost (metrics (fst (aggregation_phase b M sl))) = m_avg_gm_cost (metrics (fst sl))"
  by (simp_all add: aggregation_phase_def Let_def case_prod_beta split: option.splits)

lemma append_costs_gm:
  "m_avg_gm_cost (metrics (fst (append_costs sl))) = m_avg_gm_cost (metrics (fst sl))"
  "list_all (\<lambda>x. 0 < x) (m_epoch_gm_iter (metrics (fst sl))) \<Longrightarrow>
     list_all (\<lambda>x. 0 < x) (m_epoch_gm_iter (metrics (fst (append_costs sl))))"
  by (simp_all add: append_costs_def Let_def)

lemma after_write_gm:
  "m_avg_gm_cost (metrics (fst (after_write i a b M sl))) = m_avg_gm_cost (metrics (fst sl))"
  "list_all (\<lambda>x. 0 < x) (m_epoch_gm_iter (metrics (fst sl))) \<Longrightarrow>
     list_all (\<lambda>x. 0 < x) (m_epoch_gm_iter (metrics (fst (after_write i a b M sl))))"
  by (simp_all add: after_write_def Let_def append_costs_gm aggregation_phase_gm)

lemma batch_step_gm:
  assumes "batch_step i b sl = Inr sl'"
  shows "m_avg_gm_cost (metrics (fst sl')) = m_avg_gm_cost (metrics (fst sl))"
    "list_all (\<lambda>x. 0 < x) (m_epoch_gm_iter (metrics (fst sl))) \<Longrightarrow>
       list_all (\<lambda>x. 0 < x) (m_epoch_gm_iter (metrics (fst sl')))"
proof -
  from assms obtain s1 M ix agg_ix M' where
    e: "ensure_G (g_i b) (count_batch (fst sl)) = Inr (s1, M)" and
    "py_mod i (num_batches s1) = Inr ix"
    "py_mod (i + 1) (num_batches s1) = Inr agg_ix"
    "set_row M ix (g_i b) = Inr M'" and
    r: "sl' = after_write i agg_ix b M' (s1\<lparr>G := Some M'\<rparr>, snd sl)"
    by (rule batch_step_Inr)
  show "m_avg_gm_cost (metrics (fst sl')) = m_avg_gm_cost (metrics (fst sl))"
    by (simp add: r after_write_gm ensure_G_gm[OF e] count_batch_gm)
  assume "list_all (\<lambda>x. 0 < x) (m_epoch_gm_iter (metrics (fst sl)))"
  then have "list_all (\<lambda>x. 0 < x) (m_epoch_gm_iter (metrics (fst (s1\<lparr>G := Some M'\<rparr>, snd sl))))"
    by (simp add: ensure_G_gm[OF e] count_batch_gm)
  then show "list_all (\<lambda>x. 0 < x) (m_epoch_gm_iter (metrics (fst sl')))"
    unfolding r by (rule after_write_gm(2))
qed

lemma run_batches_gm:
  "run_batches i bs sl = Inr sl' \<Longrightarrow>
     m_avg_gm_cost (metrics (fst sl')) = m_avg_gm_cost (metrics (fst sl)) \<and>
     (list_all (\<lambda>x. 0 < x) (m_epoch_gm_iter (metrics (fst sl))) \<longrightarrow>
        list_all (\<lambda>x. 0 < x) (m_epoch_gm_iter (metrics (fst sl'))))"
proof (induction bs arbitrary: i sl)
  case Nil
  then show ?case by simp
next
  case (Cons b bs)
  from Cons.prems obtain sl1 where
    st: "batch_step i b sl = Inr sl1" and rest: "run_batches (i + 1) bs sl1 = Inr sl'"
    by (auto split: sum.splits)
  from Cons.IH[OF rest] batch_step_gm[OF st] show ?case by simp
qed

lemma sum_list_pos_nonempty:
  "list_all (\<lambda>x. 0 < x) (xs :: int list) \<Longrightarrow> xs \<noteq> [] \<Longrightarrow> 0 < sum_list xs"
proof (induction xs)
  case Nil
  then show ?case by simp
next
  case (Cons a xs)
  then show ?case by (cases xs) auto
qed

lemma update_totals_values:
  "m_total_grad_cost (update_totals m) = Some (sum_list (m_epoch_grad_cost m))"
  "m_total_agg_cost (update_totals m) = Some (sum_list (m_epoch_agg_cost m))"
  "m_total_gm_iter (update_totals m) = Some (sum_list (m_epoch_gm_iter m))"
  "m_total_compression_cost (update_totals m) = Some (sum_list (m_epoch_compression_cost m))"
  "m_total_cost (update_totals m) =
     Some (sum_list (m_epoch_grad_cost m) + sum_list (m_epoch_agg_cost m) +
           sum_list (m_epoch_compression_cost m))"
  "m_avg_gm_cost (update_totals m) =
     (if sum_list (m_epoch_gm_iter m) \<noteq> 0
      then Some (sum_list (m_epoch_agg_cost m) / real_of_int (sum_list (m_epoch_gm_iter m)))
      else m_avg_gm_cost m)"
  by (simp_all add: update_totals_def Let_def)

text \<open>
  C6. When a pass of the epoch loop ends, each total is the sum of its series,
  \<^verbatim>\<open>total_cost\<close> is the sum of the three cost totals, and \<^verbatim>\<open>avg_gm_cost\<close> is
  \<^verbatim>\<open>total_agg_cost / total_gm_iter\<close> when \<^verbatim>\<open>total_gm_iter\<close> is not zero and absent otherwise.
  The last part holds for metrics that satisfy \<open>gm_series_ok\<close>, as the empty metrics do,
  and the pass hands that property on to the next one.
\<close>

theorem totals_are_sums_of_series:
  assumes "run_epoch e s = Inr s'" and "gm_series_ok (metrics s)"
  shows "m_total_grad_cost (metrics s') = Some (sum_list (m_epoch_grad_cost (metrics s'))) \<and>
         m_total_agg_cost (metrics s') = Some (sum_list (m_epoch_agg_cost (metrics s'))) \<and>
         m_total_compression_cost (metrics s') =
           Some (sum_list (m_epoch_compression_cost (metrics s'))) \<and>
         m_total_gm_iter (metrics s') = Some (sum_list (m_epoch_gm_iter (metrics s'))) \<and>
         m_total_cost (metrics s') =
           Some (sum_list (m_epoch_grad_cost (metrics s')) +
                 sum_list (m_epoch_agg_cost (metrics s')) +
                 sum_list (m_epoch_compression_cost (metrics s'))) \<and>
         m_avg_gm_cost (metrics s') =
           (if sum_list (m_epoch_gm_iter (metrics s')) \<noteq> 0
            then Some (sum_list (m_epoch_agg_cost (metrics s')) /
                       real_of_int (sum_list (m_epoch_gm_iter (metrics s'))))
            else None) \<and>
         gm_series_ok (metrics s')"
proof -
  from assms(1) obtain sl where
    rb: "run_batches 0 (train_loader e) (s, fresh_locals) = Inr sl" and
    s': "s' = epoch_end (train_loss e) (fst sl)"
    by (auto simp: run_epoch_def split: sum.splits)
  let ?m = "metrics (fst sl)"
  have m': "metrics s' = update_totals ?m"
    by (simp add: s' epoch_end_def Let_def)
  from run_batches_gm[OF rb] assms(2)
  have avg: "m_avg_gm_cost ?m = m_avg_gm_cost (metrics s)"
    and pos: "list_all (\<lambda>x. 0 < x) (m_epoch_gm_iter ?m)"
    by (simp_all add: gm_series_ok_def)
  from run_batches_series[OF rb]
  have pre: "prefix (m_epoch_gm_iter (metrics s)) (m_epoch_gm_iter ?m)"
    by (simp add: series_extended_def)
  have none: "m_avg_gm_cost ?m = None" if "sum_list (m_epoch_gm_iter ?m) = 0"
  proof -
    from that sum_list_pos_nonempty[OF pos] have "m_epoch_gm_iter ?m = []" by force
    with pre have "m_epoch_gm_iter (metrics s) = []" by simp
    with assms(2) avg show ?thesis by (simp add: gm_series_ok_def)
  qed
  have ok: "gm_series_ok (update_totals ?m)"
    using pos none sum_list_pos_nonempty[OF pos]
    by (auto simp add: gm_series_ok_def update_totals_counts update_totals_values)
  show ?thesis
    unfolding m' using none ok
    by (simp add: update_totals_values update_totals_counts)
qed

text \<open>
  The example epoch, in which the aggregation rule iterates three times, and an epoch of a
  single batch, in which it is never called.
\<close>

theorem totals_are_sums_of_series_witness:
  "gm_series_ok (metrics (TrainPipeline_init ex_config 0)) \<and>
   (\<exists>s'. run_epoch (ex_env 0) (TrainPipeline_init ex_config 0) = Inr s' \<and>
      m_epoch_gm_iter (metrics s') = [3] \<and> m_epoch_agg_cost (metrics s') = [0, 0, 0, 2] \<and>
      m_total_gm_iter (metrics s') = Some 3 \<and> m_total_agg_cost (metrics s') = Some 2 \<and>
      m_avg_gm_cost (metrics s') = Some (2 / 3)) \<and>
   (\<exists>s'. run_epoch \<lparr>train_loader = [ex_batch], train_loss = Finite 0.5\<rparr>
            (TrainPipeline_init ex_config 0) = Inr s' \<and>
      m_epoch_gm_iter (metrics s') = [] \<and> m_total_gm_iter (metrics s') = Some 0 \<and>
      m_avg_gm_cost (metrics s') = None)"
proof -
  let ?s = "TrainPipeline_init ex_config 0"
  let ?e = "\<lparr>train_loader = [ex_batch], train_loss = Finite 0.5\<rparr>"
  have ok: "gm_series_ok (metrics ?s)"
    by (simp add: TrainPipeline_init_def gm_series_ok_empty)
  obtain s' where e: "run_epoch (ex_env 0) ?s = Inr s'"
    and gm: "m_epoch_gm_iter (metrics s') = [3]"
    and ac: "m_epoch_agg_cost (metrics s') = [0, 0, 0, 2]"
    by (simp add: batch_eval epoch_eval ex_batch_def ex_config_def ex_env_def)
  obtain s2 where e2: "run_epoch ?e ?s = Inr s2"
    and gm2: "m_epoch_gm_iter (metrics s2) = []"
    by (simp add: batch_eval epoch_eval ex_batch_def ex_config_def)
  from totals_are_sums_of_series[OF e ok] totals_are_sums_of_series[OF e2 ok] e gm ac e2 gm2 ok
  show ?thesis by simp
qed

subsection \<open>One entry per batch\<close>

lemma batch_step_appends:
  assumes "batch_step i b sl = Inr sl'"
  shows "length (m_epoch_grad_cost (metrics (fst sl'))) =
           length (m_epoch_grad_cost (metrics (fst sl))) + 1"
    "length (m_epoch_agg_cost (metrics (fst sl'))) =
           length (m_epoch_agg_cost (metrics (fst sl))) + 1"
proof -
  from assms obtain s1 M ix agg_ix M' where
    e: "ensure_G (g_i b) (count_batch (fst sl)) = Inr (s1, M)" and
    "py_mod i (num_batches s1) = Inr ix"
    "py_mod (i + 1) (num_batches s1) = Inr agg_ix"
    "set_row M ix (g_i b) = Inr M'" and
    r: "sl' = after_write i agg_ix b M' (s1\<lparr>G := Some M'\<rparr>, snd sl)"
    by (rule batch_step_Inr)
  have s1: "m_epoch_grad_cost (metrics s1) = m_epoch_grad_cost (metrics (fst sl))"
    "m_epoch_agg_cost (metrics s1) = m_epoch_agg_cost (metrics (fst sl))"
    using e by (auto simp: ensure_G_def Let_def count_batch_def split: option.splits sum.splits)
  have ag: "m_epoch_grad_cost (metrics (fst (aggregation_phase b M' x))) =
              m_epoch_grad_cost (metrics (fst x))"
    "m_epoch_agg_cost (metrics (fst (aggregation_phase b M' x))) =
              m_epoch_agg_cost (metrics (fst x))" for x
    by (simp_all add: aggregation_phase_def Let_def case_prod_beta split: option.splits)
  show "length (m_epoch_grad_cost (metrics (fst sl'))) =
           length (m_epoch_grad_cost (metrics (fst sl))) + 1"
    "length (m_epoch_agg_cost (metrics (fst sl'))) =
           length (m_epoch_agg_cost (metrics (fst sl))) + 1"
    by (simp_all add: r after_write_def append_costs_def Let_def ag s1)
qed

lemma run_batches_appends:
  "run_batches i bs sl = Inr sl' \<Longrightarrow>
     length (m_epoch_grad_cost (metrics (fst sl'))) =
       length (m_epoch_grad_cost (metrics (fst sl))) + length bs \<and>
     length (m_epoch_agg_cost (metrics (fst sl'))) =
       length (m_epoch_agg_cost (metrics (fst sl))) + length bs"
proof (induction bs arbitrary: i sl)
  case Nil
  then show ?case by simp
next
  case (Cons b bs)
  from Cons.prems obtain sl1 where
    st: "batch_step i b sl = Inr sl1" and rest: "run_batches (i + 1) bs sl1 = Inr sl'"
    by (auto split: sum.splits)
  from Cons.IH[OF rest] batch_step_appends[OF st] show ?case by simp
qed

text \<open>
  C5. The appends of lines 109 to 115 stand inside the loop over the batches. One epoch
  of four batches, each with a gradient cost of one time unit, leaves four entries in
  \<^verbatim>\<open>epoch_grad_cost\<close> and in \<^verbatim>\<open>epoch_agg_cost\<close>, the running sums after each batch, and
  \<^verbatim>\<open>total_grad_cost\<close> is 10 where the gradient cost of the epoch was 4.
\<close>

theorem epoch_series_get_one_entry_per_batch:
  "\<exists>s'. run_batch_train ex_world (TrainPipeline_init ex_config 0) = Inr s' \<and> epoch s' = 1 \<and>
     m_epoch_grad_cost (metrics s') = [1, 2, 3, 4] \<and>
     m_epoch_agg_cost (metrics s') = [0, 0, 0, 2] \<and>
     m_epoch_gm_iter (metrics s') = [3] \<and>
     m_total_grad_cost (metrics s') = Some 10"
  by (simp add: run_eval batch_eval epoch_eval ex_batch_def ex_config_def ex_env_def
      ex_world_def)

subsection \<open>Where the epoch loop stops\<close>

text \<open>
  The scenario of the spec: five epochs are configured, every epoch has one batch, and
  the evaluation returns the losses \<open>0.1\<close>, \<open>0.2\<close> and then \<open>NaN\<close>.
\<close>

definition div_config :: config where
  "div_config = \<lparr>cfg_num_epochs = 5, cfg_num_batches = 4, cfg_compressor = None\<rparr>"

definition div_env :: "int \<Rightarrow> epoch_ext" where
  "div_env k = \<lparr>train_loader = [ex_batch],
                train_loss = (if k = 0 then Finite 0.1 else if k = 1 then Finite 0.2 else NaN)\<rparr>"

lemma train_loop_stops:
  "train_loop env s = Inr s' \<Longrightarrow> epoch s \<le> num_epochs s \<Longrightarrow>
     (if \<exists>k\<in>{epoch s..<num_epochs s}. diverging (train_loss (env k))
      then epoch s' = num_epochs s + 1 else epoch s' = num_epochs s) \<and>
     num_epochs s' = num_epochs s"
proof (induction env s rule: train_loop.induct)
  case (1 env s)
  show ?case
  proof (cases "epoch s < num_epochs s")
    case False
    with "1.prems"(2) have "epoch s = num_epochs s" by simp
    with train_loop_done[OF False] "1.prems"(1) show ?thesis by auto
  next
    case True
    from "1.prems"(1) True obtain s1 where
      e: "run_epoch (env (epoch s)) s = Inr s1" and rest: "train_loop env s1 = Inr s'"
      by (rule train_loop_Inr)
    note f = run_epoch_frame(1,3)[OF e]
    show ?thesis
    proof (cases "diverging (train_loss (env (epoch s)))")
      case div: True
      with f have "\<not> epoch s1 < num_epochs s1" by simp
      from train_loop_done[OF this] rest have "s' = s1" by simp
      moreover from div True have "\<exists>k\<in>{epoch s..<num_epochs s}. diverging (train_loss (env k))"
        by (intro bexI[of _ "epoch s"]) simp_all
      ultimately show ?thesis using f div by simp
    next
      case nodiv: False
      with f True have le: "epoch s1 \<le> num_epochs s1" and nxt: "epoch s1 = epoch s + 1" by simp_all
      have "(\<exists>k\<in>{epoch s..<num_epochs s}. diverging (train_loss (env k))) =
            (\<exists>k\<in>{epoch s + 1..<num_epochs s}. diverging (train_loss (env k)))"
      proof
        assume "\<exists>k\<in>{epoch s..<num_epochs s}. diverging (train_loss (env k))"
        then obtain k where k: "epoch s \<le> k" "k < num_epochs s" "diverging (train_loss (env k))"
          by auto
        with nodiv have "k \<noteq> epoch s" by auto
        with k show "\<exists>k\<in>{epoch s + 1..<num_epochs s}. diverging (train_loss (env k))"
          by (intro bexI[of _ k]) simp_all
      next
        assume "\<exists>k\<in>{epoch s + 1..<num_epochs s}. diverging (train_loss (env k))"
        then show "\<exists>k\<in>{epoch s..<num_epochs s}. diverging (train_loss (env k))"
          by auto
      qed
      with "1.IH"[OF True e rest le] f nxt show ?thesis by simp
    qed
  qed
qed

text \<open>In that scenario the collaborators return the same whatever the generators hold.\<close>

definition div_world :: "int option \<Rightarrow> int \<Rightarrow> epoch_ext" where
  "div_world r = div_env"

text \<open>
  The passes that the loop is to make from the epoch counter \<open>k\<close> with \<open>n\<close> epochs left:
  one per epoch, up to and including the first epoch whose loss diverges.
\<close>

fun passes :: "(int \<Rightarrow> epoch_ext) \<Rightarrow> int \<Rightarrow> nat \<Rightarrow> nat" where
  "passes env k 0 = 0"
| "passes env k (Suc n) =
     (if diverging (train_loss (env k)) then 1 else Suc (passes env (k + 1) n))"

text \<open>\<open>n\<close> passes through the body of the loop, one after the other, with no test between.\<close>

fun run_passes :: "(int \<Rightarrow> epoch_ext) \<Rightarrow> nat \<Rightarrow> pipeline \<Rightarrow> error + pipeline" where
  "run_passes env 0 s = Inr s"
| "run_passes env (Suc n) s =
     (case run_epoch (env (epoch s)) s of Inl e \<Rightarrow> Inl e | Inr s' \<Rightarrow> run_passes env n s')"

lemma train_loop_passes:
  "epoch s \<le> num_epochs s \<Longrightarrow>
     train_loop env s = run_passes env (passes env (epoch s) (nat (num_epochs s - epoch s))) s"
proof (induction env s rule: train_loop.induct)
  case (1 env s)
  show ?case
  proof (cases "epoch s < num_epochs s")
    case False
    with "1.prems" have "nat (num_epochs s - epoch s) = 0" by simp
    with train_loop_done[OF False] show ?thesis by simp
  next
    case True
    then have n: "nat (num_epochs s - epoch s) = Suc (nat (num_epochs s - (epoch s + 1)))"
      by simp
    show ?thesis
    proof (cases "run_epoch (env (epoch s)) s")
      case (Inl err)
      from train_loop_error[where env=env, OF True Inl] Inl show ?thesis
        by (simp add: n)
    next
      case (Inr s1)
      note f = run_epoch_frame(1,3)[OF Inr]
      have st: "train_loop env s = train_loop env s1"
        by (rule train_loop_step[where env=env, OF True Inr])
      show ?thesis
      proof (cases "diverging (train_loss (env (epoch s)))")
        case div: True
        with f have "\<not> epoch s1 < num_epochs s1" by simp
        from train_loop_done[OF this] st div Inr show ?thesis by (simp add: n)
      next
        case nodiv: False
        with f True have le: "epoch s1 \<le> num_epochs s1" by simp
        from "1.IH"[OF True Inr le] st nodiv Inr f show ?thesis by (simp add: n)
      qed
    qed
  qed
qed

text \<open>
  C2, as the code has it. A run of \<^verbatim>\<open>run_batch_train\<close> that starts with
  \<open>epoch \<le> num_epochs\<close> makes one pass per epoch up to and including the first epoch whose
  loss is above \<open>1e3\<close>, NaN or infinite, and no pass after it. When the run returns after
  such an epoch, line 126 has set the counter to \<open>num_epochs\<close> and line 128 has still
  added one, so it ends with \<open>epoch = num_epochs + 1\<close>; when no loss diverges it ends with
  \<open>epoch = num_epochs\<close>. \<^verbatim>\<open>num_epochs\<close> is not changed, and every series the metrics held
  at the start is a prefix of the series at the end.
\<close>

theorem run_stops_after_first_diverging_epoch:
  assumes "epoch s \<le> num_epochs s"
  shows "run_batch_train world s =
           (case seed_generators s of
              Inl e \<Rightarrow> Inl e
            | Inr s1 \<Rightarrow>
                run_passes (world (rng s1))
                  (passes (world (rng s1)) (epoch s) (nat (num_epochs s - epoch s))) s1) \<and>
         (run_batch_train world s = Inr s' \<longrightarrow>
            (if \<exists>k\<in>{epoch s..<num_epochs s}. diverging (train_loss (world (Some (seed s)) k))
             then epoch s' = num_epochs s + 1 else epoch s' = num_epochs s) \<and>
            num_epochs s' = num_epochs s \<and> series_extended (metrics s) (metrics s'))"
proof -
  have A: "run_batch_train world s =
           (case seed_generators s of
              Inl e \<Rightarrow> Inl e
            | Inr s1 \<Rightarrow>
                run_passes (world (rng s1))
                  (passes (world (rng s1)) (epoch s) (nat (num_epochs s - epoch s))) s1)"
  proof (cases "seed_generators s")
    case (Inl e)
    then show ?thesis by (simp add: run_batch_train_def)
  next
    case (Inr s1)
    from seed_generators_Inr(3)[OF Inr] assms
    have "epoch s1 \<le> num_epochs s1" "epoch s1 = epoch s" "num_epochs s1 = num_epochs s"
      by simp_all
    with train_loop_passes[of s1 "world (rng s1)"] Inr show ?thesis
      by (simp add: run_batch_train_def)
  qed
  have B: "(if \<exists>k\<in>{epoch s..<num_epochs s}. diverging (train_loss (world (Some (seed s)) k))
         then epoch s' = num_epochs s + 1 else epoch s' = num_epochs s) \<and>
        num_epochs s' = num_epochs s \<and> series_extended (metrics s) (metrics s')"
    if r: "run_batch_train world s = Inr s'"
  proof -
    let ?s = "s\<lparr>rng := Some (seed s)\<rparr>"
    note t = run_batch_train_Inr(3)[OF r]
    from assms have "epoch ?s \<le> num_epochs ?s" by simp
    from train_loop_stops[OF t this] train_loop_series[OF t] show ?thesis by simp
  qed
  from A B show ?thesis by blast
qed

text \<open>
  With the losses \<open>0.1\<close>, \<open>0.2\<close>, \<open>NaN\<close> and five configured epochs the run makes three
  passes, one batch each, and returns with the counter at 6; the example run, whose only
  loss is \<open>0.5\<close>, makes its one pass and returns with the counter at \<open>num_epochs = 1\<close>.
\<close>

theorem run_stops_after_first_diverging_epoch_witness:
  "epoch (TrainPipeline_init div_config 0) \<le> num_epochs (TrainPipeline_init div_config 0) \<and>
   passes (div_world (Some 0)) 0 5 = 3 \<and>
   (\<exists>s'. run_batch_train div_world (TrainPipeline_init div_config 0) = Inr s' \<and>
      run_passes (div_world (Some 0)) 3 ((TrainPipeline_init div_config 0)\<lparr>rng := Some 0\<rparr>) =
        Inr s' \<and>
      epoch s' = 6 \<and> num_epochs s' = 5 \<and> m_num_iter (metrics s') = 3 \<and>
      m_epoch_grad_cost (metrics s') = [1, 1, 1]) \<and>
   epoch (TrainPipeline_init ex_config 0) \<le> num_epochs (TrainPipeline_init ex_config 0) \<and>
   (\<exists>s'. run_batch_train ex_world (TrainPipeline_init ex_config 0) = Inr s' \<and>
      epoch s' = 1 \<and> num_epochs s' = 1)"
proof -
  let ?s = "TrainPipeline_init div_config 0"
  let ?t = "TrainPipeline_init ex_config 0"
  have le: "epoch ?s \<le> num_epochs ?s" and v: "epoch ?s = 0" "num_epochs ?s = 5" "seed ?s = 0"
    by (simp_all add: TrainPipeline_init_def div_config_def)
  have le': "epoch ?t \<le> num_epochs ?t" and v': "epoch ?t = 0" "num_epochs ?t = 1" "seed ?t = 0"
    by (simp_all add: TrainPipeline_init_def ex_config_def)
  have sg: "seed_generators ?s = Inr (?s\<lparr>rng := Some 0\<rparr>)"
    by (simp add: seed_generators_def v)
  have p: "passes (div_world (Some 0)) 0 5 = 3"
    by (simp add: eval_nat_numeral div_world_def div_env_def diverging_def gt_1e3_def isnan_def
        isinf_def)
  obtain s' where r: "run_batch_train div_world ?s = Inr s'"
    and g: "m_epoch_grad_cost (metrics s') = [1, 1, 1]" "m_num_iter (metrics s') = 3"
    by (simp add: run_eval batch_eval epoch_eval ex_batch_def div_config_def div_env_def
        div_world_def)
  obtain t' where r': "run_batch_train ex_world ?t = Inr t'"
    by (simp add: run_eval batch_eval epoch_eval ex_batch_def ex_config_def ex_env_def
        ex_world_def)
  have d: "\<exists>k\<in>{epoch ?s..<num_epochs ?s}. diverging (train_loss (div_world (Some (seed ?s)) k))"
    unfolding v
    by (rule bexI[of _ 2]) (simp_all add: div_world_def div_env_def diverging_def isnan_def)
  have n: "\<not> (\<exists>k\<in>{epoch ?t..<num_epochs ?t}. diverging (train_loss (ex_world (Some (seed ?t)) k)))"
    by (simp add: ex_world_def ex_env_def diverging_def gt_1e3_def isnan_def isinf_def)
  note a = run_stops_after_first_diverging_epoch[OF le, of div_world s']
  note b = run_stops_after_first_diverging_epoch[OF le', of ex_world t']
  from a r sg p v have rp: "run_passes (div_world (Some 0)) 3 (?s\<lparr>rng := Some 0\<rparr>) = Inr s'"
    by simp
  from a r d v have e: "epoch s' = 6" "num_epochs s' = 5"
    by simp_all
  from b r' n v' have e': "epoch t' = 1" "num_epochs t' = 1"
    by simp_all
  have D: "\<exists>s'. run_batch_train div_world ?s = Inr s' \<and>
      run_passes (div_world (Some 0)) 3 (?s\<lparr>rng := Some 0\<rparr>) = Inr s' \<and>
      epoch s' = 6 \<and> num_epochs s' = 5 \<and> m_num_iter (metrics s') = 3 \<and>
      m_epoch_grad_cost (metrics s') = [1, 1, 1]"
    using r rp e g by blast
  have E: "\<exists>s'. run_batch_train ex_world ?t = Inr s' \<and> epoch s' = 1 \<and> num_epochs s' = 1"
    using r' e' by blast
  from le p D le' E show ?thesis by blast
qed

theorem terminal_epoch_after_divergence_counterexample:
  "(case run_batch_train div_world (TrainPipeline_init div_config 0) of
      Inl e \<Rightarrow> False
    | Inr s \<Rightarrow> epoch s = 6 \<and> num_epochs s = 5 \<and> epoch s \<noteq> num_epochs s)"
  by (simp add: run_eval batch_eval epoch_eval ex_batch_def div_config_def div_env_def
      div_world_def)

subsection \<open>Training modes\<close>

text \<open>
  A run of \<^verbatim>\<open>run_main\<close> in which the configuration loads, the constructor returns the
  initial state, and numpy builds arrays of up to a thousand seeds.
\<close>

definition ex_new_trainer :: "config \<Rightarrow> int \<Rightarrow> error + pipeline" where
  "ex_new_trainer cfg sd = Inr (TrainPipeline_init cfg sd)"

definition ex_too_long :: "int \<Rightarrow> error option" where
  "ex_too_long n = (if n \<le> 1000 then None else Some MemoryError)"

text \<open>
  C4. With \<^verbatim>\<open>--train_mode vanilla\<close> and one repeat, \<^verbatim>\<open>run_main\<close> returns normally:
  \<^verbatim>\<open>run_train\<close> has seeded the generators and trained nothing, and the untouched metrics
  are what is written out. The federated mode and the sibling stub \<^verbatim>\<open>run_fed_train\<close>
  raise \<^verbatim>\<open>NotImplementedError\<close>.
\<close>

theorem vanilla_mode_returns_untrained:
  "run_main ''vanilla'' 1 (Inr ex_config) ex_new_trainer ex_world ex_too_long =
     Inr [empty_metrics] \<and>
   run_train (TrainPipeline_init ex_config 0) =
     Inr ((TrainPipeline_init ex_config 0)\<lparr>rng := Some 0\<rparr>) \<and>
   run_main ''fed'' 1 (Inr ex_config) ex_new_trainer ex_world ex_too_long =
     Inl NotImplementedError \<and>
   run_fed_train (TrainPipeline_init ex_config 0) = Inl NotImplementedError"
  by (simp add: run_main_def np_arange_def ex_too_long_def ex_new_trainer_def launch_def
      run_train_def run_fed_train_def seed_generators_def TrainPipeline_init_def)

subsection \<open>The Jacobian buffer\<close>

text \<open>A matrix of \<open>w\<close> rows that all have length \<open>d\<close>.\<close>

definition has_shape :: "real list list \<Rightarrow> int \<Rightarrow> nat \<Rightarrow> bool" where
  "has_shape M w d = (int (length M) = w \<and> list_all (\<lambda>r. length r = d) M)"

lemma np_zeros_shape: "np_zeros w d = Inr M \<Longrightarrow> has_shape M w d \<and> 0 \<le> w"
  by (auto simp: np_zeros_def has_shape_def list_all_iff split: if_splits)

lemma set_row_Inr:
  assumes "set_row M ix g = Inr M'" and "0 \<le> ix"
  shows "nat ix < length M" "length M' = length M"
    "M' ! nat ix = (if length g = length (M ! nat ix) then g
                    else replicate (length (M ! nat ix)) (g ! 0))"
    "length g = length (M ! nat ix) \<or> length g = 1"
    "\<forall>j<length M. j \<noteq> nat ix \<longrightarrow> M' ! j = M ! j"
    "length (M' ! nat ix) = length (M ! nat ix)"
  using assms by (auto simp: set_row_def Let_def split: if_splits)

lemma set_row_shape:
  assumes "set_row M ix g = Inr M'" and "0 \<le> ix" and "has_shape M w d"
  shows "has_shape M' w d"
proof -
  note r = set_row_Inr[OF assms(1,2)]
  have "length (M' ! j) = d" if "j < length M'" for j
  proof (cases "j = nat ix")
    case True
    with r(6) r(1) assms(3) show ?thesis by (simp add: has_shape_def list_all_length)
  next
    case False
    with r(5) that r(2) assms(3) show ?thesis by (simp add: has_shape_def list_all_length)
  qed
  with r(2) assms(3) show ?thesis by (simp add: has_shape_def list_all_length)
qed

lemma set_row_ValueError:
  assumes "has_shape M w d" and "0 \<le> ix" and "ix < w" and "length g \<noteq> d" and "length g \<noteq> 1"
  shows "set_row M ix g = Inl ValueError"
  using assms by (auto simp: set_row_def Let_def has_shape_def list_all_length)

lemma after_write_G: "G (fst (after_write i a b M sl)) = G (fst sl)"
  by (simp add: after_write_frame)

lemma after_write_num_param:
  "m_num_param (metrics (fst (after_write i a b M sl))) = m_num_param (metrics (fst sl))"
  by (simp add: after_write_counts)

text \<open>What a batch that is processed without exception does to the matrix.\<close>

lemma batch_step_G:
  assumes "batch_step i b sl = Inr sl'"
  obtains M M' where
    "(case G (fst sl) of Some M0 \<Rightarrow> M = M0
        | None \<Rightarrow> np_zeros (num_batches (fst sl)) (length (g_i b)) = Inr M)"
    "num_batches (fst sl) \<noteq> 0"
    "set_row M (i mod num_batches (fst sl)) (g_i b) = Inr M'"
    "G (fst sl') = Some M'"
    "m_num_param (metrics (fst sl')) =
       (case G (fst sl) of Some M0 \<Rightarrow> m_num_param (metrics (fst sl))
        | None \<Rightarrow> Some (length (g_i b)))"
proof -
  from assms obtain s1 M ix agg_ix M' where
    e: "ensure_G (g_i b) (count_batch (fst sl)) = Inr (s1, M)" and
    p: "py_mod i (num_batches s1) = Inr ix" and
    "py_mod (i + 1) (num_batches s1) = Inr agg_ix" and
    w: "set_row M ix (g_i b) = Inr M'" and
    r: "sl' = after_write i agg_ix b M' (s1\<lparr>G := Some M'\<rparr>, snd sl)"
    by (rule batch_step_Inr)
  have nb: "num_batches s1 = num_batches (fst sl)"
    using ensure_G_frame(3)[OF e] by (simp add: count_batch_frame)
  from py_mod_Inr[OF p] nb have ix: "ix = i mod num_batches (fst sl)" and nz: "num_batches (fst sl) \<noteq> 0"
    by simp_all
  have al: "(case G (fst sl) of Some M0 \<Rightarrow> M = M0
        | None \<Rightarrow> np_zeros (num_batches (fst sl)) (length (g_i b)) = Inr M)"
    using e by (auto simp: ensure_G_def Let_def count_batch_def split: option.splits sum.splits)
  have np: "m_num_param (metrics s1) =
       (case G (fst sl) of Some M0 \<Rightarrow> m_num_param (metrics (fst sl))
        | None \<Rightarrow> Some (length (g_i b)))"
    using e by (auto simp: ensure_G_def Let_def count_batch_def split: option.splits sum.splits)
  show ?thesis
    by (rule that[of M M']) (simp_all add: al nz w[unfolded ix] r after_write_G after_write_num_param np)
qed

text \<open>
  The matrix of the pipeline is there with \<^verbatim>\<open>num_batches\<close> rows of length \<open>d\<close>, and \<open>d\<close> is
  what \<^verbatim>\<open>num_param\<close> records.
\<close>

definition allocated :: "pipeline \<Rightarrow> nat \<Rightarrow> bool" where
  "allocated s d =
     (case G s of
        None \<Rightarrow> False
      | Some M \<Rightarrow> has_shape M (num_batches s) d \<and> m_num_param (metrics s) = Some d)"

lemma set_row_ok:
  assumes "has_shape M w d" and "0 \<le> ix" and "ix < w" and "length g = d \<or> length g = 1"
  shows "set_row M ix g = Inr (M[nat ix := (if length g = d then g else replicate d (g ! 0))])"
  using assms by (auto simp: set_row_def Let_def has_shape_def list_all_length)

lemma after_write_allocated:
  "allocated (fst (after_write i a b M sl)) d = allocated (fst sl) d"
  by (simp add: allocated_def after_write_frame after_write_counts split: option.splits)

lemma batch_step_first:
  assumes "G (fst sl) = None" and "batch_step i b sl = Inr sl'"
  shows "allocated (fst sl') (length (g_i b))"
proof -
  from assms(2) obtain M0 M' where
    al: "(case G (fst sl) of Some M1 \<Rightarrow> M0 = M1
        | None \<Rightarrow> np_zeros (num_batches (fst sl)) (length (g_i b)) = Inr M0)" and
    nz: "num_batches (fst sl) \<noteq> 0" and
    w: "set_row M0 (i mod num_batches (fst sl)) (g_i b) = Inr M'" and
    g: "G (fst sl') = Some M'" and
    np: "m_num_param (metrics (fst sl')) =
       (case G (fst sl) of Some M1 \<Rightarrow> m_num_param (metrics (fst sl))
        | None \<Rightarrow> Some (length (g_i b)))"
    by (rule batch_step_G)
  from al assms(1) have z: "np_zeros (num_batches (fst sl)) (length (g_i b)) = Inr M0" by simp
  from np_zeros_shape[OF z] nz have sh: "has_shape M0 (num_batches (fst sl)) (length (g_i b))"
    and pos: "0 < num_batches (fst sl)" by simp_all
  from pos have "0 \<le> i mod num_batches (fst sl)" by simp
  from set_row_shape[OF w this sh] g np assms(1) batch_step_frame(3)[OF assms(2)]
  show ?thesis by (simp add: allocated_def)
qed

lemma batch_step_later:
  assumes "allocated (fst sl) d" and "G (fst sl) = Some M"
  shows "if num_batches (fst sl) = 0 then batch_step i b sl = Inl ZeroDivisionError
         else if length (g_i b) = d \<or> length (g_i b) = 1
         then \<exists>sl'. batch_step i b sl = Inr sl' \<and> allocated (fst sl') d \<and>
                G (fst sl') =
                  Some (M[nat (i mod num_batches (fst sl)) :=
                            (if length (g_i b) = d then g_i b else replicate d (g_i b ! 0))])
         else batch_step i b sl = Inl ValueError"
proof -
  from assms have sh: "has_shape M (num_batches (fst sl)) d"
    and np: "m_num_param (metrics (fst sl)) = Some d"
    by (simp_all add: allocated_def)
  have e: "ensure_G (g_i b) (count_batch (fst sl)) = Inr (count_batch (fst sl), M)"
    using assms(2) by (simp add: ensure_G_def count_batch_frame)
  show ?thesis
  proof (cases "num_batches (fst sl) = 0")
    case True
    then show ?thesis
      by (simp add: batch_step_def e py_mod_def count_batch_frame)
  next
    case False
    with sh have pos: "0 < num_batches (fst sl)" by (simp add: has_shape_def)
    then have r: "0 \<le> i mod num_batches (fst sl)"
      "i mod num_batches (fst sl) < num_batches (fst sl)" by simp_all
    show ?thesis
    proof (cases "length (g_i b) = d \<or> length (g_i b) = 1")
      case bad: False
      then have "length (g_i b) \<noteq> d" "length (g_i b) \<noteq> 1" by simp_all
      from set_row_ValueError[OF sh r this] False bad show ?thesis
        by (simp add: batch_step_def e py_mod_def count_batch_frame)
    next
      case good: True
      let ?M' = "M[nat (i mod num_batches (fst sl)) :=
                     (if length (g_i b) = d then g_i b else replicate d (g_i b ! 0))]"
      let ?sl' = "after_write i ((i + 1) mod num_batches (fst sl)) b ?M'
                    ((count_batch (fst sl))\<lparr>G := Some ?M'\<rparr>, snd sl)"
      note w = set_row_ok[OF sh r good]
      have st: "batch_step i b sl = Inr ?sl'"
        using False w by (simp add: batch_step_def e py_mod_def count_batch_frame)
      have sh': "has_shape ?M' (num_batches (fst sl)) d"
        by (rule set_row_shape[OF w r(1) sh])
      have "allocated (fst ?sl') d"
        unfolding after_write_allocated using sh' np
        by (simp add: allocated_def count_batch_def)
      moreover have "G (fst ?sl') = Some ?M'"
        by (simp add: after_write_frame)
      ultimately show ?thesis using False good st by simp
    qed
  qed
qed

lemma batch_step_keeps_allocated:
  assumes "allocated (fst sl) d" and "batch_step i b sl = Inr sl'"
  shows "allocated (fst sl') d" "length (g_i b) = d \<or> length (g_i b) = 1"
proof -
  from assms(1) obtain M where g: "G (fst sl) = Some M"
    by (auto simp: allocated_def split: option.splits)
  from batch_step_later[OF assms(1) g, of i b] assms(2)
  show "allocated (fst sl') d" "length (g_i b) = d \<or> length (g_i b) = 1"
    by (auto split: if_splits)
qed

lemma run_batches_keeps_allocated:
  "allocated (fst sl) d \<Longrightarrow> run_batches i bs sl = Inr sl' \<Longrightarrow>
     allocated (fst sl') d \<and> list_all (\<lambda>c. length (g_i c) = d \<or> length (g_i c) = 1) bs"
proof (induction bs arbitrary: i sl)
  case Nil
  then show ?case by simp
next
  case (Cons b bs)
  from Cons.prems(2) obtain sl1 where
    st: "batch_step i b sl = Inr sl1" and rest: "run_batches (i + 1) bs sl1 = Inr sl'"
    by (auto split: sum.splits)
  note k = batch_step_keeps_allocated[OF Cons.prems(1) st]
  from Cons.IH[OF k(1) rest] k(2) show ?case by simp
qed

lemma epoch_end_allocated: "allocated (epoch_end x s) d = allocated s d"
  by (simp add: allocated_def epoch_end_frame epoch_end_def Let_def update_totals_counts
      split: option.splits)

lemma run_epoch_keeps_allocated:
  assumes "allocated s d" and "run_epoch e s = Inr s'"
  shows "allocated s' d \<and> list_all (\<lambda>c. length (g_i c) = d \<or> length (g_i c) = 1) (train_loader e)"
proof -
  from assms(2) obtain sl where
    rb: "run_batches 0 (train_loader e) (s, fresh_locals) = Inr sl" and
    s': "s' = epoch_end (train_loss e) (fst sl)"
    by (auto simp: run_epoch_def split: sum.splits)
  from run_batches_keeps_allocated[OF _ rb] assms(1) show ?thesis
    by (simp add: s' epoch_end_allocated)
qed

lemma train_loop_keeps_allocated:
  "allocated s d \<Longrightarrow> train_loop env s = Inr s' \<Longrightarrow> allocated s' d"
proof (induction env s rule: train_loop.induct)
  case (1 env s)
  show ?case
  proof (cases "epoch s < num_epochs s")
    case False
    from train_loop_done[OF False] "1.prems" show ?thesis by simp
  next
    case True
    from "1.prems"(2) True obtain s1 where
      e: "run_epoch (env (epoch s)) s = Inr s1" and rest: "train_loop env s1 = Inr s'"
      by (rule train_loop_Inr)
    from run_epoch_keeps_allocated[OF "1.prems"(1) e] have "allocated s1 d" by simp
    from "1.IH"[OF True e this rest] show ?thesis .
  qed
qed

lemma run_batches_first:
  assumes "G (fst sl) = None" and "run_batches i (c # cs) sl = Inr sl'"
  shows "allocated (fst sl') (length (g_i c)) \<and>
         list_all (\<lambda>x. length (g_i x) = length (g_i c) \<or> length (g_i x) = 1) cs"
proof -
  from assms(2) obtain sl1 where
    st: "batch_step i c sl = Inr sl1" and rest: "run_batches (i + 1) cs sl1 = Inr sl'"
    by (auto split: sum.splits)
  from run_batches_keeps_allocated[OF batch_step_first[OF assms(1) st] rest]
  show ?thesis .
qed

text \<open>
  C3, as the code has it. The matrix is allocated once, by the first batch that is
  processed while \<^verbatim>\<open>self.G\<close> is \<^verbatim>\<open>None\<close>: with \<^verbatim>\<open>num_batches\<close> rows of the length \<open>d\<close> of
  that batch's gradient, and \<open>d\<close> recorded as \<^verbatim>\<open>num_param\<close>. From then on every batch
  writes one row of that matrix and nothing allocates again: over any run of batches,
  any pass of the epoch loop and the whole of \<^verbatim>\<open>run_batch_train\<close> the shape and
  \<^verbatim>\<open>num_param\<close> stay, and every gradient that was processed had length \<open>d\<close> or length one.
  A later gradient of length \<open>d\<close> is copied into its row, a later gradient of length one is
  accepted and broadcast over its row, and a later gradient of any other length makes the
  row assignment of line 74 raise \<^verbatim>\<open>ValueError\<close>; with a window of zero the modulo of
  line 72 raises first.
\<close>

theorem matrix_allocated_once_and_lengths_checked:
  "(G (fst sl) = None \<longrightarrow> batch_step batch_ix b sl = Inr sl' \<longrightarrow>
      allocated (fst sl') (length (g_i b))) \<and>
   (allocated (fst sl) d \<longrightarrow> G (fst sl) = Some M \<longrightarrow>
      (if num_batches (fst sl) = 0 then batch_step batch_ix b sl = Inl ZeroDivisionError
       else if length (g_i b) = d \<or> length (g_i b) = 1
       then \<exists>sl'. batch_step batch_ix b sl = Inr sl' \<and> allocated (fst sl') d \<and>
              G (fst sl') =
                Some (M[nat (batch_ix mod num_batches (fst sl)) :=
                          (if length (g_i b) = d then g_i b else replicate d (g_i b ! 0))])
       else batch_step batch_ix b sl = Inl ValueError)) \<and>
   (allocated s d \<longrightarrow> run_batches i bs (s, l) = Inr sl2 \<longrightarrow>
      allocated (fst sl2) d \<and>
      list_all (\<lambda>c. length (g_i c) = d \<or> length (g_i c) = 1) bs) \<and>
   (allocated s d \<longrightarrow> run_epoch e s = Inr s1 \<longrightarrow>
      allocated s1 d \<and>
      list_all (\<lambda>c. length (g_i c) = d \<or> length (g_i c) = 1) (train_loader e)) \<and>
   (allocated s d \<longrightarrow> run_batch_train world s = Inr s2 \<longrightarrow> allocated s2 d) \<and>
   (G s = None \<longrightarrow> run_batches i (c # cs) (s, l) = Inr sl3 \<longrightarrow>
      allocated (fst sl3) (length (g_i c)) \<and>
      list_all (\<lambda>x. length (g_i x) = length (g_i c) \<or> length (g_i x) = 1) cs) \<and>
   (G s = None \<longrightarrow> epoch s < num_epochs s \<longrightarrow>
      train_loader (world (Some (seed s)) (epoch s)) = c # cs \<longrightarrow>
      run_batch_train world s = Inr s3 \<longrightarrow> allocated s3 (length (g_i c)))"
proof -
  have A: "allocated (fst sl') (length (g_i b))"
    if "G (fst sl) = None" "batch_step batch_ix b sl = Inr sl'"
    using that by (rule batch_step_first)
  have B: "if num_batches (fst sl) = 0 then batch_step batch_ix b sl = Inl ZeroDivisionError
       else if length (g_i b) = d \<or> length (g_i b) = 1
       then \<exists>sl'. batch_step batch_ix b sl = Inr sl' \<and> allocated (fst sl') d \<and>
              G (fst sl') =
                Some (M[nat (batch_ix mod num_batches (fst sl)) :=
                          (if length (g_i b) = d then g_i b else replicate d (g_i b ! 0))])
       else batch_step batch_ix b sl = Inl ValueError"
    if "allocated (fst sl) d" "G (fst sl) = Some M"
    using that by (rule batch_step_later)
  have C: "allocated (fst sl2) d \<and>
      list_all (\<lambda>c. length (g_i c) = d \<or> length (g_i c) = 1) bs"
    if "allocated s d" "run_batches i bs (s, l) = Inr sl2"
    using run_batches_keeps_allocated[OF _ that(2)] that(1) by simp
  have D: "allocated s1 d \<and>
      list_all (\<lambda>c. length (g_i c) = d \<or> length (g_i c) = 1) (train_loader e)"
    if "allocated s d" "run_epoch e s = Inr s1"
    using that by (rule run_epoch_keeps_allocated)
  have E: "allocated s2 d" if a: "allocated s d" and r: "run_batch_train world s = Inr s2"
  proof -
    from a have "allocated (s\<lparr>rng := Some (seed s)\<rparr>) d"
      by (simp add: allocated_def split: option.splits)
    from train_loop_keeps_allocated[OF this run_batch_train_Inr(3)[OF r]] show ?thesis .
  qed
  have F: "allocated (fst sl3) (length (g_i c)) \<and>
      list_all (\<lambda>x. length (g_i x) = length (g_i c) \<or> length (g_i x) = 1) cs"
    if "G s = None" "run_batches i (c # cs) (s, l) = Inr sl3"
    using run_batches_first[OF _ that(2)] that(1) by simp
  have H: "allocated s3 (length (g_i c))"
    if n: "G s = None" and lt: "epoch s < num_epochs s"
      and ld: "train_loader (world (Some (seed s)) (epoch s)) = c # cs"
      and r: "run_batch_train world s = Inr s3"
  proof -
    let ?s = "s\<lparr>rng := Some (seed s)\<rparr>"
    let ?env = "world (Some (seed s))"
    note t = run_batch_train_Inr(3)[OF r]
    from lt have lt': "epoch ?s < num_epochs ?s" by simp
    from t lt' obtain s1 where
      e: "run_epoch (?env (epoch ?s)) ?s = Inr s1" and rest: "train_loop ?env s1 = Inr s3"
      by (rule train_loop_Inr)
    from e ld obtain sl where
      rb: "run_batches 0 (c # cs) (?s, fresh_locals) = Inr sl" and
      s1: "s1 = epoch_end (train_loss (?env (epoch s))) (fst sl)"
      by (auto simp: run_epoch_def split: sum.splits)
    from run_batches_first[OF _ rb] n have "allocated (fst sl) (length (g_i c))" by simp
    then have "allocated s1 (length (g_i c))" by (simp add: s1 epoch_end_allocated)
    from train_loop_keeps_allocated[OF this rest] show ?thesis .
  qed
  from A B C D E F H show ?thesis by blast
qed

text \<open>
  The state after a first gradient \<open>[1, 2]\<close> was stored with a window of four,
  and two batches whose gradients have the lengths three and one.
\<close>

definition ex_allocated :: pipeline where
  "ex_allocated = (TrainPipeline_init ex_config 0)
     \<lparr>G := Some [[1, 2], [0, 0], [0, 0], [0, 0]],
      metrics := empty_metrics\<lparr>m_num_param := Some 2\<rparr>\<rparr>"

definition long_batch :: batch_ext where
  "long_batch = ex_batch\<lparr>g_i := [7, 8, 9]\<rparr>"

definition short_batch :: batch_ext where
  "short_batch = ex_batch\<lparr>g_i := [7]\<rparr>"

theorem matrix_allocated_once_and_lengths_checked_witness:
  "G (TrainPipeline_init ex_config 0) = None \<and>
   (\<exists>sl'. batch_step 0 ex_batch (TrainPipeline_init ex_config 0, fresh_locals) = Inr sl' \<and>
      m_num_param (metrics (fst sl')) = Some 2 \<and>
      G (fst sl') = Some [[1, 2], [0, 0], [0, 0], [0, 0]]) \<and>
   allocated ex_allocated 2 \<and> G ex_allocated = Some [[1, 2], [0, 0], [0, 0], [0, 0]] \<and>
   (\<exists>sl'. batch_step 1 ex_batch (ex_allocated, fresh_locals) = Inr sl' \<and>
      G (fst sl') = Some [[1, 2], [1, 2], [0, 0], [0, 0]] \<and> allocated (fst sl') 2) \<and>
   (\<exists>sl'. batch_step 1 short_batch (ex_allocated, fresh_locals) = Inr sl' \<and>
      G (fst sl') = Some [[1, 2], [7, 7], [0, 0], [0, 0]] \<and> allocated (fst sl') 2) \<and>
   batch_step 1 long_batch (ex_allocated, fresh_locals) = Inl ValueError \<and>
   (\<exists>sl2. run_batches 1 [short_batch, ex_batch] (ex_allocated, fresh_locals) = Inr sl2 \<and>
      allocated (fst sl2) 2) \<and>
   (\<exists>s1. run_epoch (ex_env 0) ex_allocated = Inr s1 \<and> allocated s1 2) \<and>
   (\<exists>s2. run_batch_train ex_world ex_allocated = Inr s2 \<and> allocated s2 2) \<and>
   (\<exists>sl3. run_batches 0 [ex_batch, short_batch] (TrainPipeline_init ex_config 0, fresh_locals) =
        Inr sl3 \<and> allocated (fst sl3) 2) \<and>
   epoch (TrainPipeline_init ex_config 0) < num_epochs (TrainPipeline_init ex_config 0) \<and>
   train_loader (ex_world (Some (seed (TrainPipeline_init ex_config 0)))
       (epoch (TrainPipeline_init ex_config 0))) = [ex_batch, ex_batch, ex_batch, ex_batch] \<and>
   (\<exists>s3. run_batch_train ex_world (TrainPipeline_init ex_config 0) = Inr s3 \<and>
      allocated s3 2)"
proof -
  let ?i = "TrainPipeline_init ex_config 0"
  let ?M = "[[1, 2], [0, 0], [0, 0], [0, 0]] :: real list list"
  note T = matrix_allocated_once_and_lengths_checked
  have none: "G ?i = None" by (simp add: TrainPipeline_init_def)
  have al: "allocated ex_allocated 2"
    by (simp add: allocated_def has_shape_def ex_allocated_def TrainPipeline_init_def
        ex_config_def)
  have some: "G ex_allocated = Some ?M" by (simp add: ex_allocated_def)
  have w: "num_batches ex_allocated \<noteq> 0" "nat (1 mod num_batches ex_allocated) = 1"
    by (simp_all add: ex_allocated_def TrainPipeline_init_def ex_config_def)
  have len: "length (g_i ex_batch) = 2" "length (g_i short_batch) = 1"
    "length (g_i long_batch) = 3" "g_i ex_batch = [1, 2]" "g_i short_batch = [7]"
    by (simp_all add: ex_batch_def short_batch_def long_batch_def)
  have lt: "epoch ?i < num_epochs ?i"
    by (simp add: TrainPipeline_init_def ex_config_def)
  have ld: "train_loader (ex_world (Some (seed ?i)) (epoch ?i)) =
      [ex_batch, ex_batch, ex_batch, ex_batch]"
    by (simp add: ex_world_def ex_env_def)
  have upd: "?M[1 := [1, 2]] = [[1, 2], [1, 2], [0, 0], [0, 0]]"
    "?M[1 := replicate 2 7] = [[1, 2], [7, 7], [0, 0], [0, 0]]"
    by (simp_all add: eval_nat_numeral)
  obtain a where a: "batch_step 0 ex_batch (?i, fresh_locals) = Inr a"
    and ga: "G (fst a) = Some ?M"
    by (simp add: batch_eval ex_batch_def ex_config_def)
  have "allocated (fst a) 2"
    using T[of "(?i, fresh_locals)" 0 ex_batch a, THEN conjunct1] none a len(1) by simp
  then have "m_num_param (metrics (fst a)) = Some 2"
    by (simp add: allocated_def split: option.splits)
  with a ga have A: "\<exists>sl'. batch_step 0 ex_batch (?i, fresh_locals) = Inr sl' \<and>
      m_num_param (metrics (fst sl')) = Some 2 \<and> G (fst sl') = Some ?M"
    by blast
  have "\<exists>sl'. batch_step 1 ex_batch (ex_allocated, fresh_locals) = Inr sl' \<and>
      allocated (fst sl') 2 \<and> G (fst sl') = Some (?M[1 := [1, 2]])"
    using T[of "(ex_allocated, fresh_locals)" 1 ex_batch _ 2 ?M, THEN conjunct2, THEN conjunct1]
      al some w len by simp
  then have B: "\<exists>sl'. batch_step 1 ex_batch (ex_allocated, fresh_locals) = Inr sl' \<and>
      G (fst sl') = Some [[1, 2], [1, 2], [0, 0], [0, 0]] \<and> allocated (fst sl') 2"
    unfolding upd by blast
  have "\<exists>sl'. batch_step 1 short_batch (ex_allocated, fresh_locals) = Inr sl' \<and>
      allocated (fst sl') 2 \<and> G (fst sl') = Some (?M[1 := replicate 2 7])"
    using T[of "(ex_allocated, fresh_locals)" 1 short_batch _ 2 ?M, THEN conjunct2, THEN conjunct1]
      al some w len by simp
  then have C: "\<exists>sl'. batch_step 1 short_batch (ex_allocated, fresh_locals) = Inr sl' \<and>
      G (fst sl') = Some [[1, 2], [7, 7], [0, 0], [0, 0]] \<and> allocated (fst sl') 2"
    unfolding upd by blast
  have D: "batch_step 1 long_batch (ex_allocated, fresh_locals) = Inl ValueError"
    using T[of "(ex_allocated, fresh_locals)" 1 long_batch _ 2 ?M, THEN conjunct2, THEN conjunct1]
      al some w len by simp
  obtain r where r: "run_batches 1 [short_batch, ex_batch] (ex_allocated, fresh_locals) = Inr r"
    by (simp add: batch_eval ex_batch_def ex_config_def ex_allocated_def short_batch_def)
  have "allocated (fst r) 2"
    using T[of _ _ _ _ 2 _ ex_allocated 1 "[short_batch, ex_batch]" fresh_locals r,
        THEN conjunct2, THEN conjunct2, THEN conjunct1] al r by simp
  with r have E: "\<exists>sl2. run_batches 1 [short_batch, ex_batch] (ex_allocated, fresh_locals) =
      Inr sl2 \<and> allocated (fst sl2) 2"
    by blast
  obtain e where e: "run_epoch (ex_env 0) ex_allocated = Inr e"
    by (simp add: batch_eval epoch_eval ex_batch_def ex_config_def ex_allocated_def ex_env_def)
  have "allocated e 2"
    using T[of _ _ _ _ 2 _ ex_allocated _ _ _ _ "ex_env 0" e,
        THEN conjunct2, THEN conjunct2, THEN conjunct2, THEN conjunct1] al e by simp
  with e have F: "\<exists>s1. run_epoch (ex_env 0) ex_allocated = Inr s1 \<and> allocated s1 2"
    by blast
  obtain t where t: "run_batch_train ex_world ex_allocated = Inr t"
    by (simp add: run_eval batch_eval epoch_eval ex_batch_def ex_config_def ex_allocated_def
        ex_env_def ex_world_def)
  have "allocated t 2"
    using T[of _ _ _ _ 2 _ ex_allocated _ _ _ _ _ _ ex_world t,
        THEN conjunct2, THEN conjunct2, THEN conjunct2, THEN conjunct2, THEN conjunct1] al t
    by simp
  with t have H: "\<exists>s2. run_batch_train ex_world ex_allocated = Inr s2 \<and> allocated s2 2"
    by blast
  obtain u where u: "run_batches 0 [ex_batch, short_batch] (?i, fresh_locals) = Inr u"
    by (simp add: batch_eval ex_batch_def ex_config_def short_batch_def)
  have "allocated (fst u) 2"
    using T[of _ _ _ _ _ _ ?i 0 _ fresh_locals _ _ _ _ _ ex_batch "[short_batch]" u,
        THEN conjunct2, THEN conjunct2, THEN conjunct2, THEN conjunct2, THEN conjunct2,
        THEN conjunct1] none u len(1) by simp
  with u have I: "\<exists>sl3. run_batches 0 [ex_batch, short_batch] (?i, fresh_locals) = Inr sl3 \<and>
      allocated (fst sl3) 2"
    by blast
  obtain v where v: "run_batch_train ex_world ?i = Inr v"
    by (simp add: run_eval batch_eval epoch_eval ex_batch_def ex_config_def ex_env_def
        ex_world_def)
  have "allocated v 2"
    using T[of _ _ _ _ _ _ ?i _ _ _ _ _ _ ex_world _ ex_batch
          "[ex_batch, ex_batch, ex_batch]" _ v,
        THEN conjunct2, THEN conjunct2, THEN conjunct2, THEN conjunct2, THEN conjunct2,
        THEN conjunct2] none lt ld v len(1) by simp
  with v have J: "\<exists>s3. run_batch_train ex_world ?i = Inr s3 \<and> allocated s3 2"
    by blast
  from none A al some B C D E F H I lt ld J show ?thesis by blast
qed

text \<open>
  A second gradient of length one, after a first of length two: no exception, the single
  value fills the row.
\<close>

theorem shorter_gradient_is_broadcast_counterexample:
  "(case run_batches 0 [ex_batch, short_batch] (TrainPipeline_init ex_config 0, fresh_locals) of
      Inl e \<Rightarrow> False
    | Inr sl \<Rightarrow> m_num_param (metrics (fst sl)) = Some 2 \<and> length (g_i short_batch) \<noteq> 2 \<and>
        G (fst sl) = Some [[1, 2], [7, 7], [0, 0], [0, 0]])"
  by (simp add: batch_eval ex_batch_def ex_config_def short_batch_def)

text \<open>
  C8, as the code has it. \<open>batch_ix\<close> is the index of the enumeration, which starts at
  zero again in every epoch. With a positive window \<open>W\<close>, a batch that is processed
  without exception leaves its gradient in row \<open>batch_ix mod W\<close> of the matrix (a gradient
  of length one spread over the row) and every other row of the matrix as it was.
\<close>

theorem gradient_stored_in_row_batch_ix_mod_W:
  assumes "batch_step batch_ix b sl = Inr sl'" and "0 < num_batches (fst sl)"
  shows "\<exists>M'. G (fst sl') = Some M' \<and>
           nat (batch_ix mod num_batches (fst sl)) < length M' \<and>
           M' ! nat (batch_ix mod num_batches (fst sl)) =
             (if length (g_i b) = length (M' ! nat (batch_ix mod num_batches (fst sl)))
              then g_i b
              else replicate (length (M' ! nat (batch_ix mod num_batches (fst sl)))) (g_i b ! 0)) \<and>
           (case G (fst sl) of
              None \<Rightarrow> True
            | Some M \<Rightarrow> length M' = length M \<and>
                list_all (\<lambda>j. j = nat (batch_ix mod num_batches (fst sl)) \<or> M' ! j = M ! j)
                  [0..<length M])"
proof -
  let ?ix = "batch_ix mod num_batches (fst sl)"
  from assms(1) obtain M0 M' where
    al: "(case G (fst sl) of Some M1 \<Rightarrow> M0 = M1
        | None \<Rightarrow> np_zeros (num_batches (fst sl)) (length (g_i b)) = Inr M0)" and
    w: "set_row M0 ?ix (g_i b) = Inr M'" and
    g: "G (fst sl') = Some M'"
    by (rule batch_step_G)
  from assms(2) have ix: "0 \<le> ?ix" by simp
  note r = set_row_Inr[OF w ix]
  have row: "M' ! nat ?ix =
      (if length (g_i b) = length (M' ! nat ?ix) then g_i b
       else replicate (length (M' ! nat ?ix)) (g_i b ! 0))"
    using r(3) r(6) by simp
  have rest: "(case G (fst sl) of
              None \<Rightarrow> True
            | Some M \<Rightarrow> length M' = length M \<and>
                list_all (\<lambda>j. j = nat ?ix \<or> M' ! j = M ! j) [0..<length M])"
    using al r(2) r(5) by (auto simp: list_all_iff split: option.splits)
  from g r(1) r(2) row rest show ?thesis by simp
qed

theorem gradient_stored_in_row_batch_ix_mod_W_witness:
  "0 < num_batches ex_allocated \<and>
   (\<exists>sl'. batch_step 5 ex_batch (ex_allocated, fresh_locals) = Inr sl' \<and>
      G (fst sl') = Some [[1, 2], [1, 2], [0, 0], [0, 0]])"
proof -
  have w: "0 < num_batches (fst (ex_allocated, fresh_locals))"
    and v: "num_batches ex_allocated = 4"
    by (simp_all add: ex_allocated_def TrainPipeline_init_def ex_config_def)
  obtain c where c: "batch_step 5 ex_batch (ex_allocated, fresh_locals) = Inr c"
    and gc: "G (fst c) = Some [[1, 2], [1, 2], [0, 0], [0, 0]]"
    by (simp add: batch_eval ex_batch_def ex_config_def ex_allocated_def)
  from gradient_stored_in_row_batch_ix_mod_W[OF c w] c gc v show ?thesis by simp
qed

text \<open>
  Two epochs of three batches with a window of two; the batch with the global index \<open>n\<close>
  (counted from zero over the whole run) has the gradient \<open>[n, n + 10]\<close>.
\<close>

definition rr_config :: config where
  "rr_config = \<lparr>cfg_num_epochs = 2, cfg_num_batches = 2, cfg_compressor = None\<rparr>"

definition grad_batch :: "real \<Rightarrow> batch_ext" where
  "grad_batch n = ex_batch\<lparr>g_i := [n, n + 10]\<rparr>"

definition rr_world :: "int option \<Rightarrow> int \<Rightarrow> epoch_ext" where
  "rr_world r k = \<lparr>train_loader = [grad_batch (real_of_int (3 * k)), grad_batch (real_of_int (3 * k + 1)),
                                 grad_batch (real_of_int (3 * k + 2))],
               train_loss = Finite 0.5\<rparr>"

text \<open>
  When the run is over, six batches have been counted; the gradient \<open>[5, 15]\<close> of the
  batch with the global index 5 is in row 0, and row \<open>5 mod 2 = 1\<close> holds the gradient of
  the batch with the global index 4.
\<close>

theorem row_follows_index_within_epoch_counterexample:
  "(case run_batch_train rr_world (TrainPipeline_init rr_config 0) of
      Inl e \<Rightarrow> False
    | Inr s \<Rightarrow> m_num_iter (metrics s) = 6 \<and> G s = Some [[5, 15], [4, 14]] \<and>
        [[5, 15], [4, 14 :: real]] ! nat (5 mod num_batches s) \<noteq> [5, 15])"
  by (simp add: run_eval batch_eval epoch_eval ex_batch_def rr_config_def rr_world_def
      grad_batch_def)

subsection \<open>What does not depend on the clock\<close>



























end
